theory Spec2Isabelle
  imports Main "HOL-Library.Sublist"
begin

section \<open>Go standard-library string helpers\<close>

text \<open>
  Go strings are byte sequences; \<^typ>\<open>string\<close> is a list of 8-bit characters, so
  \<^const>\<open>length\<close> is Go's \<^verbatim>\<open>len\<close>.  Every separator the program splits on is a single byte.
\<close>

text \<open>\<^verbatim>\<open>strings.Split(s, sep)\<close> for a one-byte separator: always at least one piece.\<close>

fun Split :: "string \<Rightarrow> char \<Rightarrow> string list" where
  "Split [] sep = [[]]"
| "Split (x # xs) sep =
     (if x = sep then [] # Split xs sep
      else (case Split xs sep of
              [] \<Rightarrow> [[x]]
            | p # ps \<Rightarrow> (x # p) # ps))"

text \<open>\<^verbatim>\<open>strings.Join(elems, sep)\<close>.\<close>

fun Join :: "string list \<Rightarrow> string \<Rightarrow> string" where
  "Join [] sep = []"
| "Join [p] sep = p"
| "Join (p # q # ps) sep = p @ sep @ Join (q # ps) sep"

definition HasPrefix :: "string \<Rightarrow> string \<Rightarrow> bool" where
  "HasPrefix s p = (take (length p) s = p)"

definition HasSuffix :: "string \<Rightarrow> string \<Rightarrow> bool" where
  "HasSuffix s p = (length p \<le> length s \<and> drop (length s - length p) s = p)"

definition TrimPrefix :: "string \<Rightarrow> string \<Rightarrow> string" where
  "TrimPrefix s p = (if HasPrefix s p then drop (length p) s else s)"

text \<open>\<^verbatim>\<open>strings.Contains(s, sub)\<close> for a one-byte \<^verbatim>\<open>sub\<close>, and \<^verbatim>\<open>strings.ContainsAny\<close>.\<close>

definition ContainsChar :: "string \<Rightarrow> char \<Rightarrow> bool" where
  "ContainsChar s c = (c \<in> set s)"

definition ContainsAny :: "string \<Rightarrow> string \<Rightarrow> bool" where
  "ContainsAny s chars = (\<exists>c \<in> set chars. c \<in> set s)"

text \<open>\<^verbatim>\<open>strings.Contains(s, sub)\<close> in general: \<^verbatim>\<open>sub\<close> occurs as a contiguous block.\<close>

fun Contains :: "string \<Rightarrow> string \<Rightarrow> bool" where
  "Contains [] sub = (sub = [])"
| "Contains (x # xs) sub = (HasPrefix (x # xs) sub \<or> Contains xs sub)"

text \<open>
  \<^verbatim>\<open>strings.TrimSpace\<close> removes leading and trailing Unicode white space.  On UTF-8 bytes
  these are the six ASCII bytes 9..13 and 32, and the encodings of U+0085, U+00A0, U+1680,
  U+2000..U+200A, U+2028, U+2029, U+202F, U+205F and U+3000.
\<close>

definition ascii_space :: "char \<Rightarrow> bool" where
  "ascii_space c = (of_char c \<in> {9, 10, 11, 12, 13, 32 :: nat})"

definition bytes :: "nat list \<Rightarrow> string" where
  "bytes ns = map char_of ns"

definition unicode_spaces :: "string list" where
  "unicode_spaces =
     [bytes [0xC2, 0x85], bytes [0xC2, 0xA0], bytes [0xE1, 0x9A, 0x80],
      bytes [0xE2, 0x80, 0x80], bytes [0xE2, 0x80, 0x81], bytes [0xE2, 0x80, 0x82],
      bytes [0xE2, 0x80, 0x83], bytes [0xE2, 0x80, 0x84], bytes [0xE2, 0x80, 0x85],
      bytes [0xE2, 0x80, 0x86], bytes [0xE2, 0x80, 0x87], bytes [0xE2, 0x80, 0x88],
      bytes [0xE2, 0x80, 0x89], bytes [0xE2, 0x80, 0x8A],
      bytes [0xE2, 0x80, 0xA8], bytes [0xE2, 0x80, 0xA9], bytes [0xE2, 0x80, 0xAF],
      bytes [0xE2, 0x81, 0x9F], bytes [0xE3, 0x80, 0x80]]"

text \<open>Number of bytes of the white-space rune at the front of the string (0 if none).\<close>

definition space_width :: "string \<Rightarrow> nat" where
  "space_width s =
     (case s of
        [] \<Rightarrow> 0
      | c # _ \<Rightarrow>
          if ascii_space c then 1
          else (case find (\<lambda>q. HasPrefix s q) unicode_spaces of
                  None \<Rightarrow> 0
                | Some q \<Rightarrow> length q))"

function TrimLeft :: "string \<Rightarrow> string" where
  "TrimLeft s = (if space_width s = 0 then s else TrimLeft (drop (space_width s) s))"
  by pat_completeness auto
termination
  by (relation "measure length") (auto simp: space_width_def split: list.splits)

text \<open>The same from the right: a trailing rune is white space iff the string ends with
  one of the encodings, i.e. the reversed string starts with the reversed encoding.\<close>

definition space_width_right :: "string \<Rightarrow> nat" where
  "space_width_right s =
     (case rev s of
        [] \<Rightarrow> 0
      | c # _ \<Rightarrow>
          if ascii_space c then 1
          else (case find (\<lambda>q. HasSuffix s q) unicode_spaces of
                  None \<Rightarrow> 0
                | Some q \<Rightarrow> length q))"

function TrimRight :: "string \<Rightarrow> string" where
  "TrimRight s =
     (if space_width_right s = 0 then s
      else TrimRight (take (length s - space_width_right s) s))"
  by pat_completeness auto
termination
  by (relation "measure length") (auto simp: space_width_right_def split: list.splits)

definition TrimSpace :: "string \<Rightarrow> string" where
  "TrimSpace s = TrimRight (TrimLeft s)"

subsection \<open>\<^verbatim>\<open>strconv\<close>\<close>

definition is_digit :: "char \<Rightarrow> bool" where
  "is_digit c = (48 \<le> (of_char c :: nat) \<and> (of_char c :: nat) \<le> 57)"

definition digit_val :: "char \<Rightarrow> nat" where
  "digit_val c = of_char c - 48"

definition digits_val :: "string \<Rightarrow> nat" where
  "digits_val ds = foldl (\<lambda>acc c. acc * 10 + digit_val c) 0 ds"

text \<open>
  \<^verbatim>\<open>strconv.Atoi\<close> on a 64-bit platform (the Makefile builds for amd64): an optional
  sign, then one or more decimal digits, the value inside the \<^verbatim>\<open>int\<close> range; anything
  else is an error (\<open>None\<close>).
\<close>

definition Atoi :: "string \<Rightarrow> int option" where
  "Atoi s =
     (let (neg, ds) =
            (case s of
               [] \<Rightarrow> (False, [])
             | c # cs \<Rightarrow>
                 if c = CHR ''-'' then (True, cs)
                 else if c = CHR ''+'' then (False, cs)
                 else (False, s))
      in if ds = [] \<or> \<not> list_all is_digit ds then None
         else (let v = (if neg then - int (digits_val ds) else int (digits_val ds))
               in if v < - (2 ^ 63) \<or> 2 ^ 63 - 1 < v then None else Some v))"

text \<open>\<^verbatim>\<open>strconv.Itoa\<close>.\<close>

fun nat_digits :: "nat \<Rightarrow> string" where
  "nat_digits n =
     (if n < 10 then [char_of (48 + n)]
      else nat_digits (n div 10) @ [char_of (48 + n mod 10)])"

definition Itoa :: "int \<Rightarrow> string" where
  "Itoa i = (if i < 0 then CHR ''-'' # nat_digits (nat (- i)) else nat_digits (nat i))"

text \<open>\<^verbatim>\<open>strconv.ParseBool\<close>: exactly twelve spellings are accepted.\<close>

definition ParseBool :: "string \<Rightarrow> bool option" where
  "ParseBool s =
     (if s \<in> set [''1'', ''t'', ''T'', ''TRUE'', ''true'', ''True''] then Some True
      else if s \<in> set [''0'', ''f'', ''F'', ''FALSE'', ''false'', ''False''] then Some False
      else None)"

subsection \<open>\<^verbatim>\<open>url.PathUnescape\<close>\<close>

definition is_hex :: "char \<Rightarrow> bool" where
  "is_hex c =
     (let n = (of_char c :: nat)
      in (48 \<le> n \<and> n \<le> 57) \<or> (97 \<le> n \<and> n \<le> 102) \<or> (65 \<le> n \<and> n \<le> 70))"

definition unhex :: "char \<Rightarrow> nat" where
  "unhex c =
     (let n = (of_char c :: nat)
      in if 48 \<le> n \<and> n \<le> 57 then n - 48
         else if 97 \<le> n \<and> n \<le> 102 then n - 97 + 10
         else if 65 \<le> n \<and> n \<le> 70 then n - 65 + 10
         else 0)"

text \<open>Every \<^verbatim>\<open>%\<close> must be followed by two hex digits, which it decodes to one byte; any
  other byte (also \<^verbatim>\<open>+\<close>) is kept.\<close>

fun PathUnescape :: "string \<Rightarrow> string option" where
  "PathUnescape [] = Some []"
| "PathUnescape (c # cs) =
     (if c = CHR ''%'' then
        (case cs of
           h1 # h2 # rest \<Rightarrow>
             if is_hex h1 \<and> is_hex h2
             then map_option ((#) (char_of (unhex h1 * 16 + unhex h2))) (PathUnescape rest)
             else None
         | _ \<Rightarrow> None)
      else map_option ((#) c) (PathUnescape cs))"

section \<open>Data model\<close>

text \<open>The \<^verbatim>\<open>Record\<close> struct of \<^verbatim>\<open>record.go\<close>.  \<^verbatim>\<open>Code\<close> is a Go \<^verbatim>\<open>int\<close>;
  \<^verbatim>\<open>Use\<close> is a slice (\<open>nil\<close> is the empty list), \<^verbatim>\<open>Headers\<close> a Go map.\<close>

record Record =
  Version :: string
  To :: string
  Code :: int
  Type :: string
  Use :: "string list"
  Vcs :: string
  Website :: string
  From :: string
  Root :: string
  Re :: string
  Ref :: bool
  Headers :: "string \<rightharpoonup> string"

text \<open>\<^verbatim>\<open>Record{}\<close>, the zero value.  \<^verbatim>\<open>ParseRecord\<close> starts from
  \<^verbatim>\<open>Record{Headers: map[string]string{}}\<close>; a nil map and an empty map both have length 0
  and no entry, so both are \<^const>\<open>Map.empty\<close> here.\<close>

definition Record_zero :: Record where
  "Record_zero =
     \<lparr>Version = [], To = [], Code = 0, Type = [], Use = [], Vcs = [], Website = [],
      From = [], Root = [], Re = [], Ref = False, Headers = Map.empty\<rparr>"

text \<open>The fields of \<^verbatim>\<open>Config\<close> that the modelled code reads.\<close>

record Config =
  Enable :: "string list"
  PrometheusEnable :: bool

text \<open>Every error value the modelled functions construct, one constructor per site.
  \<open>External\<close> stands for an error made by a collaborator outside the modelled code.\<close>

datatype error =
    CouldNotParseStatusCode
  | InvalidBool
  | InvalidZoneAddress
  | UnhandledVersion string
  | InvalidEscape
  | ArbitraryData
  | FieldTooLong
  | DockerToRequired
  | TypeNotEnabled string
  | CouldNotGetTXT error
  | EmptyTXT
  | WrongTXTCount nat
  | CouldNotParseRecord error
  | NoUpstream
  | OptionDisabled
  | UnsupportedType string
  | External string

text \<open>
  What a request does to the outside world, in order: DNS TXT lookups (by absolute zone
  name), calls of the Fallback Policy \<^verbatim>\<open>fallback(w, r, mode, code, c)\<close>, header writes on
  the response, \<^verbatim>\<open>http.Redirect\<close>, and calls of the external type handlers.  Log lines and
  metric counters are left out: they do not influence control flow.
\<close>

datatype event =
    Lookup string
  | Fallback string int
  | SetHeader string string
  | AddHeader string string
  | ApplyHeaders "string \<rightharpoonup> string"
  | HttpRedirect string int
  | Handler string

text \<open>A Go call either returns or panics (index out of range).\<close>

datatype 'a outcome = Done 'a | Panic

text \<open>
  The collaborators the modelled code calls but that are not part of it, for one request:
  the DNS (\<^verbatim>\<open>net.LookupTXT\<close>, by absolute zone), the Placeholder Expander
  \<^verbatim>\<open>parsePlaceholders(s, req, [])\<close>, \<^verbatim>\<open>url.Parse(s)\<close> followed by \<^verbatim>\<open>String()\<close>
  (\<open>None\<close> when the URI does not parse), and the handlers \<^verbatim>\<open>Redirect\<close> delegates to.
\<close>

record env =
  LookupTXT :: "string \<Rightarrow> error + string list"
  parsePlaceholders :: "string \<Rightarrow> error + string"
  url_Parse :: "string \<Rightarrow> string option"
  getFinalRecord :: "Record \<Rightarrow> Record \<times> error option"
  proxyRequest :: "Record \<Rightarrow> error option"
  redirectDockerv2 :: "Record \<Rightarrow> error option"
  gometa :: "Record \<Rightarrow> error option"
  gomods :: "string \<Rightarrow> error option"

section \<open>The Directive Parser (\<^verbatim>\<open>record.go\<close>)\<close>

text \<open>\<^verbatim>\<open>contains\<close>: linear search in a slice.\<close>

fun contains :: "string list \<Rightarrow> string \<Rightarrow> bool" where
  "contains [] word = False"
| "contains (w # ws) word = (if w = word then True else contains ws word)"

text \<open>\<^verbatim>\<open>ParseURI\<close>: an unparseable URI triggers the global fallback and yields the empty
  string; there is no error result.\<close>

definition ParseURI :: "env \<Rightarrow> string \<Rightarrow> event list \<times> string" where
  "ParseURI e uri =
     (case url_Parse e uri of
        None \<Rightarrow> ([Fallback ''global'' 301], [])
      | Some u \<Rightarrow> ([], u))"

text \<open>
  One pass of the \<^verbatim>\<open>switch\<close> in \<^verbatim>\<open>ParseRecord\<close>'s loop, for the trimmed segment \<open>l\<close>.
  \<open>Next r l'\<close>: the case fell out of the switch with record \<open>r\<close>, and \<open>l'\<close> is what the
  loop variable \<^verbatim>\<open>l\<close> holds at the length check after the switch.  Most cases overwrite
  \<^verbatim>\<open>l\<close> with the key stripped (\<^verbatim>\<open>l = strings.TrimPrefix(l, key)\<close>); \<^verbatim>\<open>l, err := ...\<close>
  declares a new variable in the case's own scope and leaves the loop variable alone;
  the \<^verbatim>\<open>ref=\<close> and \<^verbatim>\<open>>\<close> cases never assign it; \<^verbatim>\<open>website=\<close> also assigns it the result
  of \<^verbatim>\<open>ParseURI\<close>.  \<open>Skip\<close> is the \<^verbatim>\<open>continue\<close> of the default case, \<open>Fail\<close> a
  \<^verbatim>\<open>return Record{}, err\<close>, \<open>Crash\<close> a panic.
\<close>

datatype step = Next Record string | Skip | Fail error | Crash

definition directive :: "env \<Rightarrow> Record \<Rightarrow> string \<Rightarrow> event list \<times> step" where
  "directive e r l =
    (if HasPrefix l ''code='' then
       (let l1 = TrimPrefix l ''code='' in
        case Atoi l1 of
          None \<Rightarrow> ([], Fail CouldNotParseStatusCode)
        | Some i \<Rightarrow> ([], Next (r\<lparr>Code := i\<rparr>) l1))
     else if HasPrefix l ''from='' then
       (let l1 = TrimPrefix l ''from='' in
        case parsePlaceholders e l1 of
          Inl err \<Rightarrow> ([], Fail err)
        | Inr l2 \<Rightarrow> ([], Next (r\<lparr>From := l2\<rparr>) l1))
     else if HasPrefix l ''re='' then
       (let l1 = TrimPrefix l ''re='' in ([], Next (r\<lparr>Re := l1\<rparr>) l1))
     else if HasPrefix l ''ref='' then
       (case ParseBool (TrimPrefix l ''ref='') of
          None \<Rightarrow> ([Fallback ''global'' 301], Fail InvalidBool)
        | Some b \<Rightarrow> ([], Next (r\<lparr>Ref := b\<rparr>) l))
     else if HasPrefix l ''root='' then
       (let l1 = TrimPrefix l ''root='' in
        case parsePlaceholders e l1 of
          Inl err \<Rightarrow> ([], Fail err)
        | Inr l2 \<Rightarrow> (let (tr, l3) = ParseURI e l2 in (tr, Next (r\<lparr>Root := l3\<rparr>) l1)))
     else if HasPrefix l ''to='' then
       (let l1 = TrimPrefix l ''to='' in
        case parsePlaceholders e l1 of
          Inl err \<Rightarrow> ([], Fail err)
        | Inr l2 \<Rightarrow> (let (tr, l3) = ParseURI e l2 in (tr, Next (r\<lparr>To := l3\<rparr>) l1)))
     else if HasPrefix l ''type='' then
       (let l1 = TrimPrefix l ''type='' in ([], Next (r\<lparr>Type := l1\<rparr>) l1))
     else if HasPrefix l ''use='' then
       (let l1 = TrimPrefix l ''use='' in
        if \<not> HasPrefix l1 ''_redirect.'' then ([], Fail InvalidZoneAddress)
        else ([], Next (r\<lparr>Use := Use r @ [l1]\<rparr>) l1))
     else if HasPrefix l ''v='' then
       (let l1 = TrimPrefix l ''v='' in
        if l1 \<noteq> ''txtv0'' then ([], Fail (UnhandledVersion l1))
        else ([], Next (r\<lparr>Version := l1\<rparr>) l1))
     else if HasPrefix l ''vcs='' then
       (let l1 = TrimPrefix l ''vcs='' in ([], Next (r\<lparr>Vcs := l1\<rparr>) l1))
     else if HasPrefix l ''website='' then
       (let l1 = TrimPrefix l ''website='';
            (tr, l2) = ParseURI e l1
        in (tr, Next (r\<lparr>Website := l2\<rparr>) l2))
     else if HasPrefix l ''>'' then
       (case Split l CHR ''='' of
          h0 # h1 # _ \<Rightarrow>
            (case PathUnescape h1 of
               None \<Rightarrow> ([], Fail InvalidEscape)
             | Some h \<Rightarrow> ([], Next (r\<lparr>Headers := (Headers r)(drop 1 h0 \<mapsto> h)\<rparr>) l))
        | _ \<Rightarrow> ([], Crash))
     else
       (if length (Split l CHR ''='') \<noteq> 2 then ([], Fail ArbitraryData)
        else ([], Skip)))"

text \<open>The \<^verbatim>\<open>for _, l := range s\<close> loop, with the length check that follows the switch.\<close>

fun parseSegments :: "env \<Rightarrow> Record \<Rightarrow> string list \<Rightarrow> event list \<times> (Record \<times> error option) outcome" where
  "parseSegments e r [] = ([], Done (r, None))"
| "parseSegments e r (l # ls) =
     (case directive e r l of
        (tr, Crash) \<Rightarrow> (tr, Panic)
      | (tr, Fail err) \<Rightarrow> (tr, Done (Record_zero, Some err))
      | (tr, Skip) \<Rightarrow> (let (tr', res) = parseSegments e r ls in (tr @ tr', res))
      | (tr, Next r' l') \<Rightarrow>
          if 255 < length l' then (tr, Done (Record_zero, Some FieldTooLong))
          else (let (tr', res) = parseSegments e r' ls in (tr @ tr', res)))"

text \<open>\<^verbatim>\<open>s := strings.Split(str, ";")\<close>, each piece trimmed.\<close>

definition segments :: "string \<Rightarrow> string list" where
  "segments str = map TrimSpace (Split str CHR '';'')"

text \<open>What \<^verbatim>\<open>ParseRecord\<close> does after the loop.\<close>

definition finish :: "Config \<Rightarrow> Record \<Rightarrow> event list \<times> (Record \<times> error option) outcome" where
  "finish c r =
     (if Type r = ''dockerv2'' \<and> To r = [] then ([], Done (Record_zero, Some DockerToRequired))
      else
        (let r1 = (if Code r = 0 then r\<lparr>Code := 302\<rparr> else r) in
         if Use r1 = [] then
           (let r2 = (if Type r1 = [] then r1\<lparr>Type := ''host''\<rparr> else r1) in
            if Type r2 = ''host'' \<and> To r2 = [] then
              ([Fallback ''global'' 301], Done (Record_zero, None))
            else if \<not> contains (Enable c) (Type r2) then
              ([], Done (Record_zero, Some (TypeNotEnabled (Type r2))))
            else ([], Done (r2, None)))
         else ([], Done (r1, None))))"

definition ParseRecord :: "env \<Rightarrow> Config \<Rightarrow> string \<Rightarrow> event list \<times> (Record \<times> error option) outcome" where
  "ParseRecord e c str =
     (case parseSegments e Record_zero (segments str) of
        (tr, Panic) \<Rightarrow> (tr, Panic)
      | (tr, Done (r, Some err)) \<Rightarrow> (tr, Done (r, Some err))
      | (tr, Done (r, None)) \<Rightarrow> (let (tr', res) = finish c r in (tr @ tr', res)))"

section \<open>The Zone Resolver (\<^verbatim>\<open>record.go\<close>)\<close>

text \<open>\<^verbatim>\<open>absoluteZone\<close>, with \<^verbatim>\<open>basezone = "_redirect"\<close>.\<close>

definition basezone :: string where
  "basezone = ''_redirect''"

definition absoluteZone :: "string \<Rightarrow> string" where
  "absoluteZone zone =
     (let z1 = (if ContainsChar zone CHR '':'' then hd (Split zone CHR '':'') else zone);
          z2 = (if \<not> HasPrefix z1 basezone then Join [basezone, z1] ''.'' else z1)
      in if HasSuffix z2 ''.'' then z2 else Join [z2, ''.''] [])"

text \<open>
  \<^verbatim>\<open>query\<close> of \<^verbatim>\<open>record.go\<close>: one TXT lookup at the absolute zone.  A lookup error and an
  empty first string are errors; \<^verbatim>\<open>txts[0]\<close> on an empty answer list panics.
\<close>

definition query :: "env \<Rightarrow> string \<Rightarrow> event list \<times> (string list \<times> error option) outcome" where
  "query e zone =
     (let z = absoluteZone zone in
      ([Lookup z],
       case LookupTXT e z of
         Inl err \<Rightarrow> Done ([], Some (CouldNotGetTXT err))
       | Inr txts \<Rightarrow>
           (case txts of
              [] \<Rightarrow> Panic
            | t # _ \<Rightarrow> if t = [] then Done ([], Some EmptyTXT) else Done (txts, None))))"

text \<open>The host with its leftmost label replaced by \<^verbatim>\<open>_\<close>:
  \<^verbatim>\<open>hostSlice := strings.Split(host, "."); hostSlice[0] = "_"; strings.Join(hostSlice, ".")\<close>.\<close>

definition wildcardHost :: "string \<Rightarrow> string" where
  "wildcardHost host = Join ((Split host CHR ''.'')[0 := ''_'']) ''.''"

text \<open>
  The second half of \<^verbatim>\<open>GetRecord\<close>, from \<^verbatim>\<open>if len(txts) != 1\<close> on: exactly one TXT
  string is parsed, and the headers of an accepted record are written to the response,
  in one \<open>ApplyHeaders\<close> event (Go ranges over the map in no fixed order).  The function's
  \<^verbatim>\<open>r = rec.addToContext(r)\<close> rebinds its own parameter only, so the caller's request is
  unchanged and nothing of it is returned.
\<close>

definition parseAnswer ::
  "env \<Rightarrow> Config \<Rightarrow> string list \<Rightarrow> event list \<times> (Record \<times> error option) outcome" where
  "parseAnswer e c txts =
     (case txts of
        [txt] \<Rightarrow>
          (case ParseRecord e c txt of
             (tr, Panic) \<Rightarrow> (tr, Panic)
           | (tr, Done (rec, Some err)) \<Rightarrow> (tr, Done (rec, Some (CouldNotParseRecord err)))
           | (tr, Done (rec, None)) \<Rightarrow>
               (tr @ (if Headers rec \<noteq> Map.empty then [ApplyHeaders (Headers rec)] else []),
                Done (rec, None)))
      | _ \<Rightarrow> ([], Done (Record_zero, Some (WrongTXTCount (length txts)))))"

text \<open>
  \<^verbatim>\<open>GetRecord(host, c, w, r)\<close>.  \<open>recs\<close> is \<^verbatim>\<open>r.Context().Value("records")\<close>: \<open>None\<close> for nil.
  First the three lookups: the apex; the apex wildcard, if the apex failed and no record
  is in the context yet; the broad wildcard, if there is still an error or the first
  string is empty, whose error is returned as it is.
\<close>

definition GetRecord ::
  "env \<Rightarrow> Config \<Rightarrow> string \<Rightarrow> Record list option \<Rightarrow> event list \<times> (Record \<times> error option) outcome" where
  "GetRecord e c host recs =
    (case query e host of
       (tr1, Panic) \<Rightarrow> (tr1, Panic)
     | (tr1, Done (txts1, err1)) \<Rightarrow>
        (case (if err1 \<noteq> None \<and> recs = None then query e (''_.'' @ host)
               else ([], Done (txts1, err1))) of
           (tr2, Panic) \<Rightarrow> (tr1 @ tr2, Panic)
         | (tr2, Done (txts2, err2)) \<Rightarrow>
            (case (if err2 \<noteq> None then query e (wildcardHost host)
                   else (case txts2 of
                           [] \<Rightarrow> ([], Panic)
                         | t # _ \<Rightarrow>
                             if t = [] then query e (wildcardHost host)
                             else ([], Done (txts2, None)))) of
               (tr3, Panic) \<Rightarrow> (tr1 @ tr2 @ tr3, Panic)
             | (tr3, Done (txts3, Some err3)) \<Rightarrow>
                 (tr1 @ tr2 @ tr3, Done (Record_zero, Some err3))
             | (tr3, Done (txts3, None)) \<Rightarrow>
                 (let (tr4, res) = parseAnswer e c txts3 in (tr1 @ tr2 @ tr3 @ tr4, res)))))"

section \<open>The Upstream Chain Resolver (\<^verbatim>\<open>record.go\<close>)\<close>

text \<open>The \<^verbatim>\<open>for _, zone := range rec.Use\<close> loop of \<^verbatim>\<open>UpstreamRecord\<close>: an error of
  \<^verbatim>\<open>GetRecord\<close> is a \<^verbatim>\<open>continue\<close>, a success returns at once.\<close>

fun upstreamLoop ::
  "env \<Rightarrow> Config \<Rightarrow> Record list option \<Rightarrow> string list
     \<Rightarrow> event list \<times> (Record \<times> string \<times> error option) outcome" where
  "upstreamLoop e c recs [] = ([], Done (Record_zero, [], Some NoUpstream))"
| "upstreamLoop e c recs (zone # zones) =
     (case GetRecord e c zone recs of
        (tr, Panic) \<Rightarrow> (tr, Panic)
      | (tr, Done (upstreamRec, Some err)) \<Rightarrow>
          (let (tr', res) = upstreamLoop e c recs zones in (tr @ tr', res))
      | (tr, Done (upstreamRec, None)) \<Rightarrow> (tr, Done (upstreamRec, zone, None)))"

definition UpstreamRecord ::
  "env \<Rightarrow> Config \<Rightarrow> Record \<Rightarrow> Record list option
     \<Rightarrow> event list \<times> (Record \<times> string \<times> error option) outcome" where
  "UpstreamRecord e c rec recs = upstreamLoop e c recs (Use rec)"

section \<open>The Redirect Dispatcher\<close>

text \<open>What \<^verbatim>\<open>Redirect\<close> reads of the request: \<^verbatim>\<open>r.Host\<close>, \<^verbatim>\<open>r.URL.Path\<close>, the
  \<^verbatim>\<open>User-Agent\<close> header, the \<^verbatim>\<open>go-get\<close> query parameter and the \<^verbatim>\<open>"records"\<close> value of
  its context.\<close>

record request =
  Host :: string
  Path :: string
  UserAgent :: string
  GoGet :: string
  records :: "Record list option"

definition isIP :: "string \<Rightarrow> bool" where
  "isIP host =
     (if 2 < length (Split host CHR '':'') then True
      else Atoi (last (Split host CHR ''.'')) \<noteq> None)"

text \<open>\<^verbatim>\<open>getBaseTarget\<close>: target, status code and error.\<close>

definition getBaseTarget :: "env \<Rightarrow> Record \<Rightarrow> string \<times> int \<times> error option" where
  "getBaseTarget e rec =
     (if ContainsAny (To rec) ''{}'' then
        (case parsePlaceholders e (To rec) of
           Inl err \<Rightarrow> ([], 0, Some err)
         | Inr to \<Rightarrow> (to, Code rec, None))
      else (To rec, Code rec, None))"

text \<open>\<^verbatim>\<open>status301CacheAge = 604800\<close>; the header value is
  \<^verbatim>\<open>fmt.Sprintf("max-age=%d", status301CacheAge)\<close>.\<close>

definition cacheHeader :: "int \<Rightarrow> event list" where
  "cacheHeader code =
     (if code = 301 then [AddHeader ''Cache-Control'' (''max-age='' @ Itoa 604800)] else [])"

text \<open>The chain of \<^verbatim>\<open>if rec.Type == ...\<close> blocks of \<^verbatim>\<open>Redirect\<close> from \<^verbatim>\<open>"proxy"\<close> on.\<close>

definition handlers :: "env \<Rightarrow> request \<Rightarrow> Record \<Rightarrow> event list \<times> error option" where
  "handlers e req rec =
    (if Type rec = ''proxy'' then
       (case proxyRequest e rec of
          Some err \<Rightarrow> ([Handler ''proxyRequest'', Fallback ''to'' (Code rec)], None)
        | None \<Rightarrow> ([Handler ''proxyRequest''], None))
     else if Type rec = ''dockerv2'' then
       (if \<not> Contains (UserAgent req) ''Docker-Client'' then
          ([Fallback ''to'' (Code rec)], None)
        else
          (case redirectDockerv2 e rec of
             Some err \<Rightarrow> ([Handler ''redirectDockerv2'', Fallback ''to'' (Code rec)], None)
           | None \<Rightarrow> ([Handler ''redirectDockerv2''], None)))
     else if Type rec = ''host'' then
       (case getBaseTarget e rec of
          (to, code, Some err) \<Rightarrow> ([Fallback ''to'' code], None)
        | (to, code, None) \<Rightarrow>
            (cacheHeader code @ [AddHeader ''Status-Code'' (Itoa code), HttpRedirect to code],
             None))
     else if Type rec = ''gometa'' then
       (if GoGet req \<noteq> ''1'' then ([Fallback ''website'' 302], None)
        else ([Handler ''gometa''], gometa e rec))
     else if Type rec = ''gomods'' then ([Handler ''gomods''], gomods e (Path req))
     else ([], Some (UnsupportedType (Type rec))))"

text \<open>The \<^verbatim>\<open>if rec.Type == "path"\<close> block, then the chain above (with the record that
  \<^verbatim>\<open>getFinalRecord\<close> returned, when it was called).  \<^verbatim>\<open>zoneFromPath\<close> and
  \<^verbatim>\<open>getFinalRecord\<close> are one collaborator call here: the error of the first is
  overwritten by the second.\<close>

definition byType :: "env \<Rightarrow> request \<Rightarrow> Record \<Rightarrow> event list \<times> error option" where
  "byType e req rec =
    (if Type rec = ''path'' then
       (if Path req = ''/'' then
          (if Root rec = [] then ([Fallback ''to'' (Code rec)], None)
           else
             (cacheHeader (Code rec)
                @ [AddHeader ''Status-Code'' (Itoa (Code rec)), HttpRedirect (Root rec) (Code rec)],
              None))
        else if Path req \<noteq> [] then
          (case getFinalRecord e rec of
             (rec', Some err) \<Rightarrow>
               ([Handler ''getFinalRecord'', Fallback ''to'' (Code rec')], None)
           | (rec', None) \<Rightarrow>
               (let (tr, res) = handlers e req rec' in (Handler ''getFinalRecord'' # tr, res)))
        else handlers e req rec)
     else handlers e req rec)"

text \<open>
  \<^verbatim>\<open>Redirect(w, r, c)\<close>.  Its \<^verbatim>\<open>getRecord\<close> is the Zone Resolver \<^const>\<open>GetRecord\<close>.  The
  result is the returned \<^verbatim>\<open>error\<close> (\<open>None\<close> for nil).  The blacklist map holds the one
  key \<^verbatim>\<open>/favicon.ico\<close>.  \<^verbatim>\<open>r = addRecordToContext(r, rec)\<close> changes only the request that
  is handed on to the collaborators, which stand for this request as a whole.
\<close>

definition Redirect :: "env \<Rightarrow> Config \<Rightarrow> request \<Rightarrow> event list \<times> error option outcome" where
  "Redirect e c req =
    (let host = Host req; path = Path req; tr0 = [SetHeader ''Server'' ''TXTDirect''] in
     if path = ''/favicon.ico'' then
       (tr0 @ [SetHeader ''Content-Type'' [], AddHeader ''Status-Code'' (Itoa 404),
               HttpRedirect (Join [host, path] []) 404],
        Done None)
     else if isIP host then (tr0 @ [Fallback ''global'' 301], Done None)
     else
       (case GetRecord e c host (records req) of
          (tr, Panic) \<Rightarrow> (tr0 @ tr, Panic)
        | (tr, Done (rec, Some err)) \<Rightarrow> (tr0 @ tr @ [Fallback ''global'' 302], Done None)
        | (tr, Done (rec, None)) \<Rightarrow>
            if \<not> contains (Enable c) (Type rec) then (tr0 @ tr, Done (Some OptionDisabled))
            else if Re rec \<noteq> [] \<and> From rec \<noteq> [] then
              (tr0 @ tr @ [Fallback ''to'' (Code rec)], Done None)
            else (let (tr', res) = byType e req rec in (tr0 @ tr @ tr', Done res))))"

text \<open>How often a trace invokes the Fallback Policy, and which zones it looks up.\<close>

definition is_Fallback :: "event \<Rightarrow> bool" where
  "is_Fallback ev = (case ev of Fallback m code \<Rightarrow> True | _ \<Rightarrow> False)"

definition fallbacks :: "event list \<Rightarrow> nat" where
  "fallbacks tr = length (filter is_Fallback tr)"

definition lookups :: "event list \<Rightarrow> string list" where
  "lookups tr = concat (map (\<lambda>ev. case ev of Lookup z \<Rightarrow> [z] | _ \<Rightarrow> []) tr)"

text \<open>A lookup stage has failed when \<^const>\<open>query\<close> returned an error.\<close>

definition failed :: "(string list \<times> error option) outcome \<Rightarrow> bool" where
  "failed out = (case out of Done (txts, Some err) \<Rightarrow> True | _ \<Rightarrow> False)"

text \<open>
  Literal IP addresses, as the specification speaks of them.  An IPv4 literal is a dotted
  quad of decimal octets.  An IPv6 literal, bracketed and with a port or not, is only
  used through the one property that \<^const>\<open>isIP\<close> looks at: it holds at least two colons.
\<close>

definition octet :: "string \<Rightarrow> bool" where
  "octet s = (s \<noteq> [] \<and> length s \<le> 3 \<and> list_all is_digit s \<and> digits_val s \<le> 255)"

definition dotted_quad :: "string \<Rightarrow> bool" where
  "dotted_quad h =
     (case Split h CHR ''.'' of
        [a, b, c, d] \<Rightarrow> octet a \<and> octet b \<and> octet c \<and> octet d
      | _ \<Rightarrow> False)"

definition colons :: "string \<Rightarrow> nat" where
  "colons h = length (filter (\<lambda>x. x = CHR '':'') h)"

section \<open>Sample collaborators\<close>

text \<open>
  A concrete environment for evaluating the model: the DNS holds exactly the TXT answers
  of \<open>table\<close> (every other zone is a lookup error), strings without placeholders expand
  to themselves, a URI with a malformed percent escape does not parse and any other
  parses and prints unchanged (as Go does for the plain ASCII URIs used below), and the
  handlers succeed.
\<close>

definition sample_env :: "(string \<times> string list) list \<Rightarrow> env" where
  "sample_env table =
     \<lparr>LookupTXT = (\<lambda>z. case map_of table z of
                         None \<Rightarrow> Inl (External ''no such host'')
                       | Some txts \<Rightarrow> Inr txts),
      parsePlaceholders = Inr,
      url_Parse = (\<lambda>s. if PathUnescape s = None then None else Some s),
      getFinalRecord = (\<lambda>rec. (rec, None)),
      proxyRequest = (\<lambda>rec. None),
      redirectDockerv2 = (\<lambda>rec. None),
      gometa = (\<lambda>rec. None),
      gomods = (\<lambda>path. None)\<rparr>"

definition sample_config :: "string list \<Rightarrow> Config" where
  "sample_config types = \<lparr>Enable = types, PrometheusEnable = False\<rparr>"

definition sample_request :: "string \<Rightarrow> string \<Rightarrow> request" where
  "sample_request host path =
     \<lparr>Host = host, Path = path, UserAgent = ''curl/8.7.1'', GoGet = [], records = None\<rparr>"

text \<open>A DNS with one record, for a chain of three upstream zones of which only the
  second exists.\<close>

definition upstream_table :: "(string \<times> string list) list" where
  "upstream_table = [(''_redirect.y.example.org.'', [''to=https://example.com/''])]"

definition upstream_pointer :: Record where
  "upstream_pointer =
     Record_zero\<lparr>Code := 302,
                  Use := [''_redirect.x.example.org'', ''_redirect.y.example.org'',
                          ''_redirect.z.example.org'']\<rparr>"





section \<open>Properties\<close>

declare TrimLeft.simps [simp del] TrimRight.simps [simp del] nat_digits.simps [simp del]

subsection \<open>Strings without surrounding white space are left alone by \<^const>\<open>TrimSpace\<close>\<close>

lemma not_prefix_unicode:
  assumes "of_char c < (128::nat)"
  shows "find (\<lambda>q. HasPrefix (c # s) q) unicode_spaces = None"
proof -
  have "c \<noteq> char_of (0xC2::nat)" "c \<noteq> char_of (0xE1::nat)" "c \<noteq> char_of (0xE2::nat)" "c \<noteq> char_of (0xE3::nat)"
    using assms by auto
  then show ?thesis
    by (simp add: unicode_spaces_def bytes_def HasPrefix_def)
qed

lemma space_width_ascii:
  "of_char c < (128::nat) \<Longrightarrow> \<not> ascii_space c \<Longrightarrow> space_width (c # s) = 0"
  by (simp add: space_width_def not_prefix_unicode)

lemma HasSuffix_last: "HasSuffix s q \<Longrightarrow> q \<noteq> [] \<Longrightarrow> last s = last q"
  unfolding HasSuffix_def
  by (metis append_take_drop_id last_appendR)

lemma not_suffix_unicode:
  assumes "of_char (last s) < (128::nat)"
  shows "find (\<lambda>q. HasSuffix s q) unicode_spaces = None"
proof -
  have "\<And>q. q \<in> set unicode_spaces \<Longrightarrow> q \<noteq> [] \<and> \<not> of_char (last q) < (128::nat)"
    by (auto simp: unicode_spaces_def bytes_def)
  then have "\<And>q. q \<in> set unicode_spaces \<Longrightarrow> \<not> HasSuffix s q"
    using assms HasSuffix_last by metis
  then show ?thesis
    by (simp add: find_None_iff)
qed

lemma space_width_right_ascii:
  "s \<noteq> [] \<Longrightarrow> of_char (last s) < (128::nat) \<Longrightarrow> \<not> ascii_space (last s)
     \<Longrightarrow> space_width_right s = 0"
  by (cases s rule: rev_cases) (simp_all add: space_width_right_def not_suffix_unicode)

lemma TrimLeft_id: "space_width s = 0 \<Longrightarrow> TrimLeft s = s"
  by (subst TrimLeft.simps) simp

lemma TrimRight_id: "space_width_right s = 0 \<Longrightarrow> TrimRight s = s"
  by (subst TrimRight.simps) simp

lemma TrimSpace_Nil: "TrimSpace [] = []"
  by (simp add: TrimSpace_def TrimLeft_id TrimRight_id space_width_def space_width_right_def)

lemma TrimSpace_plain:
  "of_char (hd s) < (128::nat) \<Longrightarrow> \<not> ascii_space (hd s) \<Longrightarrow>
   of_char (last s) < (128::nat) \<Longrightarrow> \<not> ascii_space (last s) \<Longrightarrow> TrimSpace s = s"
proof (cases s)
  case Nil
  then show ?thesis by (simp add: TrimSpace_Nil)
next
  case (Cons c cs)
  assume "of_char (hd s) < (128::nat)" "\<not> ascii_space (hd s)"
    "of_char (last s) < (128::nat)" "\<not> ascii_space (last s)"
  then have "space_width s = 0" "space_width_right s = 0"
    using Cons space_width_ascii [of c cs] space_width_right_ascii [of s] by simp_all
  then show ?thesis
    by (simp add: TrimSpace_def TrimLeft_id TrimRight_id)
qed

subsection \<open>Single directives and the parse loop\<close>

lemma directive_to:
  "directive e r (''to='' @ v) =
     (case parsePlaceholders e v of
        Inl err \<Rightarrow> ([], Fail err)
      | Inr l2 \<Rightarrow> (let (tr, l3) = ParseURI e l2 in (tr, Next (r\<lparr>To := l3\<rparr>) v)))"
  by (simp add: directive_def HasPrefix_def TrimPrefix_def)

lemma directive_root:
  "directive e r (''root='' @ v) =
     (case parsePlaceholders e v of
        Inl err \<Rightarrow> ([], Fail err)
      | Inr l2 \<Rightarrow> (let (tr, l3) = ParseURI e l2 in (tr, Next (r\<lparr>Root := l3\<rparr>) v)))"
  by (simp add: directive_def HasPrefix_def TrimPrefix_def)


lemma directive_re:
  "directive e r (''re='' @ x) = ([], Next (r\<lparr>Re := x\<rparr>) x)"
  by (simp add: directive_def HasPrefix_def TrimPrefix_def)









subsection \<open>Splitting\<close>

lemma Split_no_sep: "sep \<notin> set s \<Longrightarrow> Split s sep = [s]"
  by (induction s) auto

lemma Split_append: "sep \<notin> set a \<Longrightarrow> Split (a @ sep # b) sep = a # Split b sep"
  by (induction a) auto

lemma Split_not_Nil: "Split s sep \<noteq> []"
  by (induction s) (auto split: list.splits)

subsection \<open>Concrete parses\<close>

lemma segments_plain_to: "segments ''to=https://example.com/'' = [''to=https://example.com/'']"
  by (simp add: segments_def TrimSpace_plain ascii_space_def)




subsection \<open>The \<^verbatim>\<open>Use\<close> list, and unparseable URIs\<close>

lemma HasPrefix_split: "HasPrefix l p \<Longrightarrow> l = p @ drop (length p) l"
  by (metis HasPrefix_def append_take_drop_id)

lemma directive_use:
  "directive e r (''use='' @ t) =
     (if \<not> HasPrefix t ''_redirect.'' then ([], Fail InvalidZoneAddress)
      else ([], Next (r\<lparr>Use := Use r @ [t]\<rparr>) t))"
  by (simp add: directive_def HasPrefix_def TrimPrefix_def)

lemma directive_Next_Use_keep:
  "directive e r l = (tr, Next r' l') \<Longrightarrow> \<not> HasPrefix l ''use='' \<Longrightarrow> Use r' = Use r"
  by (auto simp: directive_def Let_def split: if_splits option.splits sum.splits list.splits prod.splits)

lemma directive_Next_Use:
  assumes "directive e r l = (tr, Next r' l')"
  shows "Use r' = (if HasPrefix l ''use='' then Use r @ [drop 4 l] else Use r)"
proof (cases "HasPrefix l ''use=''")
  case True
  have len: "length ''use='' = 4" by simp
  have l: "l = ''use='' @ drop 4 l" using HasPrefix_split [OF True] unfolding len .
  from assms have "directive e r (''use='' @ drop 4 l) = (tr, Next r' l')" using l by simp
  then show ?thesis using True by (simp only: directive_use split: if_splits) auto
next
  case False
  then show ?thesis using directive_Next_Use_keep [OF assms] by simp
qed

lemma directive_use_not_Skip:
  assumes "HasPrefix l ''use=''"
  shows "directive e r l \<noteq> (tr, Skip)"
proof -
  have len: "length ''use='' = 4" by simp
  have l: "l = ''use='' @ drop 4 l" using HasPrefix_split [OF assms] unfolding len .
  have "directive e r (''use='' @ drop 4 l) \<noteq> (tr, Skip)"
    by (simp only: directive_use split: if_splits) auto
  then show ?thesis using l by simp
qed

lemma parseSegments_Use:
  "parseSegments e r ls = (tr, Done (r', None)) \<Longrightarrow>
     Use r' = Use r @ map (drop 4) (filter (\<lambda>l. HasPrefix l ''use='') ls)"
proof (induction ls arbitrary: r tr)
  case Nil
  then show ?case by simp
next
  case (Cons l ls)
  obtain t st where d: "directive e r l = (t, st)" by (cases "directive e r l")
  show ?case
  proof (cases st)
    case (Next r1 l1)
    with Cons.prems d obtain tr1 where
      rest: "parseSegments e r1 ls = (tr1, Done (r', None))"
      by (auto split: if_splits prod.splits)
    from d Next have "Use r1 = (if HasPrefix l ''use='' then Use r @ [drop 4 l] else Use r)"
      using directive_Next_Use by blast
    with Cons.IH [OF rest] show ?thesis by simp
  next
    case Skip
    with Cons.prems d obtain tr1 where
      rest: "parseSegments e r ls = (tr1, Done (r', None))"
      by (auto split: prod.splits)
    from d Skip have "\<not> HasPrefix l ''use=''"
      using directive_use_not_Skip by blast
    with Cons.IH [OF rest] show ?thesis by simp
  next
    case (Fail err)
    with Cons.prems d show ?thesis by simp
  next
    case Crash
    with Cons.prems d show ?thesis by simp
  qed
qed

lemma segments_use: "segments ''use=_redirect.example.org'' = [''use=_redirect.example.org'']"
  by (simp add: segments_def TrimSpace_plain ascii_space_def)

lemma parseSegments_use:
  "parseSegments (sample_env []) Record_zero [''use=_redirect.example.org'']
     = ([], Done (Record_zero\<lparr>Use := [''_redirect.example.org'']\<rparr>, None))"
  by (simp add: directive_def HasPrefix_def TrimPrefix_def Record_zero_def Let_def)

lemma parseSegments_to_invalid:
  assumes "parsePlaceholders e v = Inr u" and "url_Parse e u = None"
  shows "parseSegments e r ((''to='' @ v) # ls) =
       (if 255 < length v then ([Fallback ''global'' 301], Done (Record_zero, Some FieldTooLong))
        else (Fallback ''global'' 301 # fst (parseSegments e (r\<lparr>To := []\<rparr>) ls),
              snd (parseSegments e (r\<lparr>To := []\<rparr>) ls)))"
  using assms directive_to [of e r v]
  by (simp add: ParseURI_def split: prod.splits)

lemma parseSegments_root_invalid:
  assumes "parsePlaceholders e v = Inr u" and "url_Parse e u = None"
  shows "parseSegments e r ((''root='' @ v) # ls) =
       (if 255 < length v then ([Fallback ''global'' 301], Done (Record_zero, Some FieldTooLong))
        else (Fallback ''global'' 301 # fst (parseSegments e (r\<lparr>Root := []\<rparr>) ls),
              snd (parseSegments e (r\<lparr>Root := []\<rparr>) ls)))"
  using assms directive_root [of e r v]
  by (simp add: ParseURI_def split: prod.splits)

lemma segments_to_bad: "segments ''to=%;type=path'' = [''to=%'', ''type=path'']"
  by (simp add: segments_def TrimSpace_plain ascii_space_def)

lemma parseSegments_type_path:
  "parseSegments e r [''type=path''] = ([], Done (r\<lparr>Type := ''path''\<rparr>, None))"
  by (simp add: directive_def HasPrefix_def TrimPrefix_def Let_def)

lemma sample_env_bad_uri:
  "parsePlaceholders (sample_env t) ''%'' = Inr ''%''" "url_Parse (sample_env t) ''%'' = None"
  by (simp_all add: sample_env_def)

section \<open>Claims about the Directive Parser\<close>

subsection \<open>C8: the version of an accepted record\<close>





subsection \<open>C10: a header segment without a value\<close>

text \<open>
  C10 asks that a header segment with no \<^verbatim>\<open>=\<close> be handled by a Record or an error.  The
  code indexes \<^verbatim>\<open>header[1]\<close> of a one-element split: on the input \<^verbatim>\<open>>Name\<close>
  \<^const>\<open>ParseRecord\<close> panics, in every environment and configuration.
\<close>

theorem ParseRecord_header_without_value_panics: "ParseRecord e c ''>Name'' = ([], Panic)"
proof -
  have "segments ''>Name'' = [''>Name'']"
    by (simp add: segments_def TrimSpace_plain ascii_space_def)
  moreover have "directive e Record_zero ''>Name'' = ([], Crash)"
    by (simp add: directive_def HasPrefix_def)
  ultimately show ?thesis
    by (simp add: ParseRecord_def)
qed


text \<open>The same for any segment that starts with \<^verbatim>\<open>>\<close> and holds no \<^verbatim>\<open>=\<close>.\<close>

lemma directive_header_no_eq:
  "HasPrefix l ''>'' \<Longrightarrow> CHR ''='' \<notin> set l \<Longrightarrow> directive e r l = ([], Crash)"
  by (cases l) (auto simp: directive_def HasPrefix_def Split_no_sep)

subsection \<open>C2: the 255-byte bound\<close>

text \<open>
  C2 asks that a recognized segment longer than 255 bytes, key included, fail the parse.
  The length check reads the loop variable after most cases have stripped the key from
  it, so the segment \<^verbatim>\<open>re=\<close> followed by 253 letters (256 bytes) is accepted.
\<close>

theorem ParseRecord_accepts_256_byte_segment:
  "length (''re='' @ replicate 253 CHR ''a'') = 256 \<and>
   ParseRecord (sample_env []) (sample_config [''host''])
      (''to=https://example.com/;re='' @ replicate 253 CHR ''a'')
   = ([], Done (Record_zero\<lparr>To := ''https://example.com/'', Code := 302, Type := ''host'',
                   Re := replicate 253 CHR ''a''\<rparr>, None))"
proof -
  let ?R = "replicate 253 CHR ''a''"
  have str: "''to=https://example.com/;re='' @ ?R = ''to=https://example.com/'' @ CHR '';'' # (''re='' @ ?R)"
    by simp
  have "Split (''to=https://example.com/;re='' @ ?R) CHR '';'' = [''to=https://example.com/'', ''re='' @ ?R]"
    unfolding str by (subst Split_append) (simp_all add: Split_no_sep)
  moreover have "TrimSpace (''re='' @ ?R) = ''re='' @ ?R"
    by (rule TrimSpace_plain) (simp_all add: ascii_space_def)
  moreover have "TrimSpace ''to=https://example.com/'' = ''to=https://example.com/''"
    by (rule TrimSpace_plain) (simp_all add: ascii_space_def)
  ultimately have segs: "segments (''to=https://example.com/;re='' @ ?R) = [''to=https://example.com/'', ''re='' @ ?R]"
    by (simp add: segments_def)
  have d1: "directive (sample_env []) Record_zero ''to=https://example.com/''
      = ([], Next (Record_zero\<lparr>To := ''https://example.com/''\<rparr>) ''https://example.com/'')"
    by (simp add: directive_def HasPrefix_def TrimPrefix_def sample_env_def ParseURI_def Let_def)
  have d2: "directive (sample_env []) (Record_zero\<lparr>To := ''https://example.com/''\<rparr>) (''re='' @ ?R)
      = ([], Next (Record_zero\<lparr>To := ''https://example.com/'', Re := ?R\<rparr>) ?R)"
    by (rule directive_re)
  have loop: "parseSegments (sample_env []) Record_zero [''to=https://example.com/'', ''re='' @ ?R]
      = ([], Done (Record_zero\<lparr>To := ''https://example.com/'', Re := ?R\<rparr>, None))"
    using d1 d2 by simp
  have fin: "finish (sample_config [''host'']) (Record_zero\<lparr>To := ''https://example.com/'', Re := ?R\<rparr>)
      = ([], Done (Record_zero\<lparr>To := ''https://example.com/'', Code := 302, Type := ''host'', Re := ?R\<rparr>, None))"
    by (simp add: finish_def sample_config_def Record_zero_def Let_def)
  have "ParseRecord (sample_env []) (sample_config [''host''])
          (''to=https://example.com/;re='' @ ?R)
        = ([], Done (Record_zero\<lparr>To := ''https://example.com/'', Code := 302, Type := ''host'',
                        Re := ?R\<rparr>, None))"
    unfolding ParseRecord_def segs loop by (simp add: fin)
  then show ?thesis by simp
qed


subsection \<open>C9: a record with \<^verbatim>\<open>use=\<close> is not validated\<close>

text \<open>
  C9.  When the directive loop ends with a non-empty \<^verbatim>\<open>Use\<close> (the values of the
  \<^verbatim>\<open>use=\<close> segments, in order), \<^const>\<open>ParseRecord\<close> returns the record of the loop with
  only the default status code filled in: the \<^verbatim>\<open>Type\<close> is not defaulted to \<^verbatim>\<open>host\<close>, no
  fallback is triggered for a missing \<^verbatim>\<open>to=\<close>, and the result does not depend on the
  enabled types of the configuration \<open>c\<close>.  Only the \<^verbatim>\<open>dockerv2\<close> check on \<^verbatim>\<open>to=\<close>,
  which stands before the \<^verbatim>\<open>len(r.Use) == 0\<close> block, still applies.
\<close>

theorem ParseRecord_Use_skips_validation:
  assumes "parseSegments e Record_zero (segments str) = (tr, Done (r, None))"
    and "Use r \<noteq> []"
  shows "ParseRecord e c str =
           (tr, if Type r = ''dockerv2'' \<and> To r = []
                then Done (Record_zero, Some DockerToRequired)
                else Done (r\<lparr>Code := (if Code r = 0 then 302 else Code r)\<rparr>, None))
         \<and> Use r = map (drop 4) (filter (\<lambda>l. HasPrefix l ''use='') (segments str))"
proof -
  have "finish c r =
      ([], if Type r = ''dockerv2'' \<and> To r = []
           then Done (Record_zero, Some DockerToRequired)
           else Done (r\<lparr>Code := (if Code r = 0 then 302 else Code r)\<rparr>, None))"
    using assms(2) by (simp add: finish_def Let_def)
  then have "ParseRecord e c str =
           (tr, if Type r = ''dockerv2'' \<and> To r = []
                then Done (Record_zero, Some DockerToRequired)
                else Done (r\<lparr>Code := (if Code r = 0 then 302 else Code r)\<rparr>, None))"
    using assms(1) by (simp add: ParseRecord_def)
  moreover have "Use r = map (drop 4) (filter (\<lambda>l. HasPrefix l ''use='') (segments str))"
    using parseSegments_Use [OF assms(1)] by (simp add: Record_zero_def)
  ultimately show ?thesis by blast
qed

theorem ParseRecord_Use_skips_validation_witness:
  "parseSegments (sample_env []) Record_zero (segments ''use=_redirect.example.org'')
     = ([], Done (Record_zero\<lparr>Use := [''_redirect.example.org'']\<rparr>, None))
   \<and> Use (Record_zero\<lparr>Use := [''_redirect.example.org'']\<rparr>) \<noteq> []
   \<and> ParseRecord (sample_env []) (sample_config []) ''use=_redirect.example.org''
     = ([], Done (Record_zero\<lparr>Code := 302, Use := [''_redirect.example.org'']\<rparr>, None))"
proof -
  let ?r = "Record_zero\<lparr>Use := [''_redirect.example.org'']\<rparr>"
  have loop: "parseSegments (sample_env []) Record_zero (segments ''use=_redirect.example.org'')
     = ([], Done (?r, None))"
    by (simp only: segments_use parseSegments_use)
  have use: "Use ?r \<noteq> []" by simp
  from ParseRecord_Use_skips_validation [OF loop use, of "sample_config []"]
  have "ParseRecord (sample_env []) (sample_config []) ''use=_redirect.example.org''
     = ([], Done (Record_zero\<lparr>Code := 302, Use := [''_redirect.example.org'']\<rparr>, None))"
    by (simp add: Record_zero_def)
  with loop use show ?thesis by blast
qed

subsection \<open>C4: \<^verbatim>\<open>to=\<close> and \<^verbatim>\<open>root=\<close> with an unparseable URI\<close>

text \<open>
  C4, as the code has it.  \<^verbatim>\<open>ParseURI\<close> has no error result: for a \<^verbatim>\<open>to=\<close> or \<^verbatim>\<open>root=\<close>
  directive whose expanded value is not a parseable URI, the global Fallback Policy is
  invoked (status 301), the field is stored empty, and the loop goes on with the next
  segment; the directive fails the parse only through the 255-byte check on its value.
\<close>

theorem invalid_URI_falls_back_and_parsing_goes_on:
  assumes "parsePlaceholders e v = Inr u" and "url_Parse e u = None"
  shows "parseSegments e r ((''to='' @ v) # ls) =
       (if 255 < length v then ([Fallback ''global'' 301], Done (Record_zero, Some FieldTooLong))
        else (Fallback ''global'' 301 # fst (parseSegments e (r\<lparr>To := []\<rparr>) ls),
              snd (parseSegments e (r\<lparr>To := []\<rparr>) ls)))
     \<and> parseSegments e r ((''root='' @ v) # ls) =
       (if 255 < length v then ([Fallback ''global'' 301], Done (Record_zero, Some FieldTooLong))
        else (Fallback ''global'' 301 # fst (parseSegments e (r\<lparr>Root := []\<rparr>) ls),
              snd (parseSegments e (r\<lparr>Root := []\<rparr>) ls)))"
  using parseSegments_to_invalid [OF assms] parseSegments_root_invalid [OF assms] by blast

theorem invalid_URI_falls_back_and_parsing_goes_on_witness:
  "parsePlaceholders (sample_env []) ''%'' = Inr ''%'' \<and> url_Parse (sample_env []) ''%'' = None
   \<and> parseSegments (sample_env []) Record_zero [''to=%'', ''type=path'']
        = ([Fallback ''global'' 301], Done (Record_zero\<lparr>Type := ''path''\<rparr>, None))
   \<and> parseSegments (sample_env []) Record_zero [''root=%'', ''type=path'']
        = ([Fallback ''global'' 301], Done (Record_zero\<lparr>Type := ''path''\<rparr>, None))"
proof -
  note h = sample_env_bad_uri [of "[]"]
  from invalid_URI_falls_back_and_parsing_goes_on [OF h, of Record_zero "[''type=path'']"]
  have "parseSegments (sample_env []) Record_zero [''to=%'', ''type=path'']
        = ([Fallback ''global'' 301], Done (Record_zero\<lparr>Type := ''path''\<rparr>, None))"
    and "parseSegments (sample_env []) Record_zero [''root=%'', ''type=path'']
        = ([Fallback ''global'' 301], Done (Record_zero\<lparr>Type := ''path''\<rparr>, None))"
    by (simp_all add: parseSegments_type_path Record_zero_def del: parseSegments.simps)
  with h show ?thesis by blast
qed

text \<open>The claim as written fails: \<^verbatim>\<open>to=%;type=path\<close> is accepted, with one fallback
  call on the way.\<close>

theorem invalid_URI_counterexample:
  "url_Parse (sample_env []) ''%'' = None
   \<and> ParseRecord (sample_env []) (sample_config [''path'']) ''to=%;type=path''
       = ([Fallback ''global'' 301], Done (Record_zero\<lparr>Code := 302, Type := ''path''\<rparr>, None))"
proof -
  have "parseSegments (sample_env []) Record_zero [''to=%'', ''type=path'']
        = ([Fallback ''global'' 301], Done (Record_zero\<lparr>Type := ''path''\<rparr>, None))"
    using parseSegments_to_invalid [OF sample_env_bad_uri, of "[]" Record_zero "[''type=path'']"]
    by (simp add: parseSegments_type_path Record_zero_def del: parseSegments.simps)
  moreover have "finish (sample_config [''path'']) (Record_zero\<lparr>Type := ''path''\<rparr>)
       = ([], Done (Record_zero\<lparr>Code := 302, Type := ''path''\<rparr>, None))"
    by (simp add: finish_def sample_config_def Record_zero_def Let_def)
  ultimately show ?thesis
    unfolding ParseRecord_def segments_to_bad by (simp add: sample_env_bad_uri)
qed


section \<open>Traces\<close>

text \<open>The parser's only effect on the outside world is the global fallback.\<close>

lemma lookups_simps:
  "lookups [] = []"
  "lookups (Lookup z # tr) = z # lookups tr"
  "lookups (Fallback m k # tr) = lookups tr"
  "lookups (ApplyHeaders h # tr) = lookups tr"
  "lookups (a @ b) = lookups a @ lookups b"
  by (simp_all add: lookups_def)

lemma lookups_Fallback_only: "set tr \<subseteq> {Fallback m k} \<Longrightarrow> lookups tr = []"
  by (induction tr) (auto simp: lookups_simps)

lemma directive_trace_eq:
  "directive e r l = (tr, st) \<Longrightarrow> tr = [] \<or> tr = [Fallback ''global'' 301]"
  by (auto simp: directive_def ParseURI_def Let_def
           split: if_splits option.splits sum.splits list.splits prod.splits)

lemma directive_trace: "set (fst (directive e r l)) \<subseteq> {Fallback ''global'' 301}"
  using directive_trace_eq [of e r l "fst (directive e r l)" "snd (directive e r l)"] by auto

lemma parseSegments_trace: "set (fst (parseSegments e r ls)) \<subseteq> {Fallback ''global'' 301}"
proof (induction ls arbitrary: r)
  case Nil
  then show ?case by simp
next
  case (Cons l ls)
  obtain t st where d: "directive e r l = (t, st)" by (cases "directive e r l")
  then have t: "set t \<subseteq> {Fallback ''global'' 301}"
    using directive_trace [of e r l] by simp
  show ?case
  proof (cases st)
    case (Next r1 l1)
    then show ?thesis using d t Cons.IH [of r1] by (auto split: prod.splits)
  next
    case Skip
    then show ?thesis using d t Cons.IH [of r] by (auto split: prod.splits)
  next
    case (Fail err)
    then show ?thesis using d t by auto
  next
    case Crash
    then show ?thesis using d t by auto
  qed
qed

lemma finish_trace: "set (fst (finish c r)) \<subseteq> {Fallback ''global'' 301}"
  by (simp add: finish_def Let_def)

lemma ParseRecord_trace: "set (fst (ParseRecord e c str)) \<subseteq> {Fallback ''global'' 301}"
proof -
  obtain tr out where p: "parseSegments e Record_zero (segments str) = (tr, out)"
    by (cases "parseSegments e Record_zero (segments str)")
  then have tr: "set tr \<subseteq> {Fallback ''global'' 301}"
    using parseSegments_trace [of e Record_zero "segments str"] by simp
  show ?thesis
  proof (cases out)
    case Panic
    then show ?thesis using p tr by (simp add: ParseRecord_def)
  next
    case (Done res)
    obtain r err where res: "res = (r, err)" by (cases res)
    show ?thesis
    proof (cases err)
      case (Some x)
      then show ?thesis using p tr Done res by (simp add: ParseRecord_def)
    next
      case None
      obtain t2 o2 where f: "finish c r = (t2, o2)" by (cases "finish c r")
      then have "set t2 \<subseteq> {Fallback ''global'' 301}"
        using finish_trace [of c r] by simp
      then show ?thesis using p tr Done res None f by (simp add: ParseRecord_def)
    qed
  qed
qed

lemma lookups_ParseRecord: "lookups (fst (ParseRecord e c str)) = []"
  using ParseRecord_trace lookups_Fallback_only by blast


section \<open>The lookup chain of the Zone Resolver\<close>

lemma query_eq: "query e z = ([Lookup (absoluteZone z)], snd (query e z))"
  by (simp add: query_def Let_def)

lemma query_success:
  "snd (query e z) = Done (txts, None) \<Longrightarrow> \<exists>t ts. txts = t # ts \<and> t \<noteq> []"
  by (auto simp: query_def Let_def split: sum.splits list.splits if_splits)

lemma query_outcomes:
  obtains (panic) "query e z = ([Lookup (absoluteZone z)], Panic)"
  | (error) txts err where "query e z = ([Lookup (absoluteZone z)], Done (txts, Some err))"
  | (answer) t ts where "t \<noteq> []" "query e z = ([Lookup (absoluteZone z)], Done (t # ts, None))"
proof (cases "snd (query e z)")
  case Panic
  then show ?thesis using query_eq [of e z] panic by simp
next
  case (Done res)
  obtain txts err where res: "res = (txts, err)" by (cases res)
  show ?thesis
  proof (cases err)
    case None
    with Done res obtain t ts where "txts = t # ts" "t \<noteq> []"
      using query_success [of e z txts] by auto
    then show ?thesis using query_eq [of e z] Done res None answer by simp
  next
    case (Some x)
    then show ?thesis using query_eq [of e z] Done res error by simp
  qed
qed

lemma failed_simps:
  "failed Panic = False" "failed (Done (txts, Some err)) = True" "failed (Done (txts, None)) = False"
  by (simp_all add: failed_def)

lemma failed_query:
  assumes "failed (snd (query e z))"
  shows "\<exists>txts err. query e z = ([Lookup (absoluteZone z)], Done (txts, Some err))"
proof (rule query_outcomes [of e z])
  assume "query e z = ([Lookup (absoluteZone z)], Panic)"
  then show ?thesis using assms by (simp add: failed_simps)
next
  fix txts err
  assume "query e z = ([Lookup (absoluteZone z)], Done (txts, Some err))"
  then show ?thesis by blast
next
  fix t ts
  assume "query e z = ([Lookup (absoluteZone z)], Done (t # ts, None))"
  then show ?thesis using assms by (simp add: failed_simps)
qed

lemma lookups_parseAnswer:
  assumes pa: "parseAnswer e c txts = (tr, res)"
  shows "lookups tr = []"
proof (cases txts)
  case Nil
  then show ?thesis using pa by (auto simp: parseAnswer_def lookups_simps)
next
  case (Cons s rest)
  show ?thesis
  proof (cases rest)
    case Nil
    obtain tr0 out where p: "ParseRecord e c s = (tr0, out)" by (cases "ParseRecord e c s")
    then have "lookups tr0 = []" using lookups_ParseRecord [of e c s] by simp
    then show ?thesis using Cons Nil p pa
      by (auto simp: parseAnswer_def lookups_simps split: outcome.splits option.splits if_splits)
  next
    case (Cons a list)
    then show ?thesis using \<open>txts = s # rest\<close> pa by (auto simp: parseAnswer_def lookups_simps)
  qed
qed

text \<open>The leaves of the lookup chain, after a failed apex query.\<close>

lemma GetRecord_stage3:
  assumes q1: "query e host = (t1, Done (txts1, Some e1))"
    and q2: "query e (''_.'' @ host) = (t2, Done (txts2, Some e2))"
    and q3: "query e (wildcardHost host) = (t3, out3)"
  shows "GetRecord e c host None =
     (case out3 of
        Panic \<Rightarrow> (t1 @ t2 @ t3, Panic)
      | Done (txts3, Some err3) \<Rightarrow> (t1 @ t2 @ t3, Done (Record_zero, Some err3))
      | Done (txts3, None) \<Rightarrow>
          (t1 @ t2 @ t3 @ fst (parseAnswer e c txts3), snd (parseAnswer e c txts3)))"
  by (simp add: GetRecord_def q1 q2 [simplified] q3
           split: outcome.splits option.splits prod.splits)

lemma GetRecord_stage3_ctx:
  assumes q1: "query e host = (t1, Done (txts1, Some e1))"
    and q3: "query e (wildcardHost host) = (t3, out3)"
  shows "GetRecord e c host (Some rs) =
     (case out3 of
        Panic \<Rightarrow> (t1 @ t3, Panic)
      | Done (txts3, Some err3) \<Rightarrow> (t1 @ t3, Done (Record_zero, Some err3))
      | Done (txts3, None) \<Rightarrow>
          (t1 @ t3 @ fst (parseAnswer e c txts3), snd (parseAnswer e c txts3)))"
  by (simp add: GetRecord_def q1 q3 split: outcome.splits option.splits prod.splits)

lemma GetRecord_stage2_panic:
  assumes q1: "query e host = (t1, Done (txts1, Some e1))" and "recs = None"
    and q2: "query e (''_.'' @ host) = (t2, Panic)"
  shows "GetRecord e c host recs = (t1 @ t2, Panic)"
  using assms(2) by (simp add: GetRecord_def q1 q2 [simplified])

lemma GetRecord_stage2_answer:
  assumes q1: "query e host = (t1, Done (txts1, Some e1))" and "recs = None"
    and q2: "query e (''_.'' @ host) = (t2, Done (t # ts, None))" and "t \<noteq> []"
  shows "GetRecord e c host recs =
           (t1 @ t2 @ fst (parseAnswer e c (t # ts)), snd (parseAnswer e c (t # ts)))"
  using assms(2,4) by (simp add: GetRecord_def q1 q2 [simplified] split: prod.splits)




lemma Join_Cons_head: "Join ((x # p) # ps) sep = x # Join (p # ps) sep"
  by (cases ps) simp_all

lemma Join_Split: "Join (Split s c) [c] = s"
proof (induction s)
  case Nil
  then show ?case by simp
next
  case (Cons x xs)
  obtain p ps where sp: "Split xs c = p # ps"
    using Split_not_Nil [of xs c] by (cases "Split xs c") auto
  show ?case
  proof (cases "x = c")
    case True
    then show ?thesis using sp Cons.IH by simp
  next
    case False
    then show ?thesis using sp Cons.IH by (simp add: Join_Cons_head)
  qed
qed

lemma wildcardHost_label:
  assumes "CHR ''.'' \<notin> set a"
  shows "wildcardHost (a @ ''.'' @ rest) = ''_.'' @ rest"
proof -
  obtain p ps where sp: "Split rest CHR ''.'' = p # ps"
    using Split_not_Nil [of rest "CHR ''.''"] by (cases "Split rest CHR ''.''") auto
  have "Split (a @ ''.'' @ rest) CHR ''.'' = a # Split rest CHR ''.''"
    using Split_append [OF assms, of rest] by simp
  then have "wildcardHost (a @ ''.'' @ rest) = Join (''_'' # Split rest CHR ''.'') ''.''"
    by (simp add: wildcardHost_def)
  also have "\<dots> = ''_.'' @ Join (Split rest CHR ''.'') ''.''"
    by (simp add: sp)
  finally show ?thesis by (simp add: Join_Split)
qed

lemma HasSuffix_dot: "HasSuffix s ''.'' = (s \<noteq> [] \<and> last s = CHR ''.'')"
proof (cases s rule: rev_cases)
  case Nil
  then show ?thesis by (simp add: HasSuffix_def)
next
  case (snoc ys y)
  then show ?thesis by (simp add: HasSuffix_def)
qed

lemma absoluteZone_plain:
  assumes "CHR '':'' \<notin> set z" and "\<not> HasPrefix z ''_redirect''" and "z \<noteq> []"
    and "last z \<noteq> CHR ''.''"
  shows "absoluteZone z = ''_redirect.'' @ z @ ''.''"
  using assms
  by (simp add: absoluteZone_def ContainsChar_def basezone_def HasSuffix_dot Let_def)

lemma zone_names:
  assumes "CHR ''.'' \<notin> set a" and "CHR '':'' \<notin> set (a @ ''.'' @ rest)"
    and "\<not> HasPrefix (a @ ''.'' @ rest) ''_redirect''" and "rest \<noteq> []"
    and "last rest \<noteq> CHR ''.''"
  shows "absoluteZone (a @ ''.'' @ rest) = ''_redirect.'' @ a @ ''.'' @ rest @ ''.''"
    and "absoluteZone (''_.'' @ a @ ''.'' @ rest) = ''_redirect._.'' @ a @ ''.'' @ rest @ ''.''"
    and "absoluteZone (wildcardHost (a @ ''.'' @ rest)) = ''_redirect._.'' @ rest @ ''.''"
proof -
  show "absoluteZone (a @ ''.'' @ rest) = ''_redirect.'' @ a @ ''.'' @ rest @ ''.''"
    using absoluteZone_plain [of "a @ ''.'' @ rest"] assms by simp
  have np: "\<And>t. \<not> HasPrefix (''_.'' @ t) ''_redirect''"
    by (simp add: HasPrefix_def)
  show "absoluteZone (''_.'' @ a @ ''.'' @ rest) = ''_redirect._.'' @ a @ ''.'' @ rest @ ''.''"
    using absoluteZone_plain [of "''_.'' @ a @ ''.'' @ rest"] assms np [of "a @ ''.'' @ rest"]
    by simp
  show "absoluteZone (wildcardHost (a @ ''.'' @ rest)) = ''_redirect._.'' @ rest @ ''.''"
    unfolding wildcardHost_label [OF assms(1)]
    using absoluteZone_plain [of "''_.'' @ rest"] assms np [of rest]
    by simp
qed

section \<open>Claims about the Zone Resolver and the Upstream Chain Resolver\<close>

subsection \<open>C5: the order of the lookups\<close>

text \<open>
  C5.  When the apex query of \<^const>\<open>GetRecord\<close> fails, the zones it looks up are, in
  order: the apex; the apex wildcard \<^verbatim>\<open>_.<host>\<close>, only when the request context holds no
  records yet; and the broad wildcard (leftmost label replaced by \<^verbatim>\<open>_\<close>), unless the apex
  wildcard was asked and did not fail.  When the broad-wildcard query fails, its error is
  what \<^const>\<open>GetRecord\<close> returns.  For a plain host \<^verbatim>\<open>a.rest\<close> (no port, no trailing dot,
  not itself under \<^verbatim>\<open>_redirect\<close>) the three zones are \<^verbatim>\<open>_redirect.a.rest.\<close>,
  \<^verbatim>\<open>_redirect._.a.rest.\<close> and \<^verbatim>\<open>_redirect._.rest.\<close>.
\<close>

theorem GetRecord_lookup_order:
  assumes "failed (snd (query e host))"
  shows "lookups (fst (GetRecord e c host recs)) =
           [absoluteZone host]
           @ (if recs = None then [absoluteZone (''_.'' @ host)] else [])
           @ (if recs = None \<and> \<not> failed (snd (query e (''_.'' @ host))) then []
              else [absoluteZone (wildcardHost host)])
     \<and> ((recs = None \<longrightarrow> failed (snd (query e (''_.'' @ host)))) \<and>
         snd (query e (wildcardHost host)) = Done (txts3, Some err3) \<longrightarrow>
           snd (GetRecord e c host recs) = Done (Record_zero, Some err3))
     \<and> (host = a @ ''.'' @ rest \<and> CHR ''.'' \<notin> set a \<and> CHR '':'' \<notin> set host \<and>
         \<not> HasPrefix host ''_redirect'' \<and> rest \<noteq> [] \<and> last rest \<noteq> CHR ''.'' \<longrightarrow>
           absoluteZone host = ''_redirect.'' @ a @ ''.'' @ rest @ ''.'' \<and>
           absoluteZone (''_.'' @ host) = ''_redirect._.'' @ a @ ''.'' @ rest @ ''.'' \<and>
           absoluteZone (wildcardHost host) = ''_redirect._.'' @ rest @ ''.'')"
proof -
  let ?Z1 = "Lookup (absoluteZone host)"
  let ?Z2 = "Lookup (absoluteZone (''_.'' @ host))"
  let ?Z3 = "Lookup (absoluteZone (wildcardHost host))"
  from failed_query [OF assms] obtain txts1 e1 where
    q1: "query e host = ([?Z1], Done (txts1, Some e1))" by blast
  obtain out3 where q3: "query e (wildcardHost host) = ([?Z3], out3)"
    using query_eq [of e "wildcardHost host"] by blast
  have tail: "\<And>pre txts. lookups (pre @ fst (parseAnswer e c txts)) = lookups pre"
    using lookups_parseAnswer [of e c] by (simp add: lookups_simps) (metis prod.collapse)
  have order: "lookups (fst (GetRecord e c host recs)) =
           [absoluteZone host]
           @ (if recs = None then [absoluteZone (''_.'' @ host)] else [])
           @ (if recs = None \<and> \<not> failed (snd (query e (''_.'' @ host))) then []
              else [absoluteZone (wildcardHost host)])"
  proof (cases recs)
    case (Some rs)
    have "lookups (fst (GetRecord e c host (Some rs))) = lookups [?Z1, ?Z3]"
      unfolding GetRecord_stage3_ctx [OF q1 q3]
      using tail [of "[?Z1, ?Z3]"]
      by (simp split: outcome.splits option.splits prod.splits)
    then show ?thesis using Some by (simp add: lookups_simps)
  next
    case None
    show ?thesis
    proof (rule query_outcomes [of e "''_.'' @ host"])
      assume q2: "query e (''_.'' @ host) = ([?Z2], Panic)"
      then have nf: "\<not> failed (snd (query e (''_.'' @ host)))" by (simp add: failed_simps)
      show ?thesis
        using GetRecord_stage2_panic [OF q1 None q2] None nf by (simp add: lookups_simps)
    next
      fix txts2 e2
      assume q2: "query e (''_.'' @ host) = ([?Z2], Done (txts2, Some e2))"
      then have f: "failed (snd (query e (''_.'' @ host)))" by (simp add: failed_simps)
      have "lookups (fst (GetRecord e c host None)) = lookups [?Z1, ?Z2, ?Z3]"
        unfolding GetRecord_stage3 [OF q1 q2 q3]
        using tail [of "[?Z1, ?Z2, ?Z3]"]
        by (simp split: outcome.splits option.splits prod.splits)
      then show ?thesis using None f by (simp add: lookups_simps)
    next
      fix t ts
      assume t: "t \<noteq> []" and q2: "query e (''_.'' @ host) = ([?Z2], Done (t # ts, None))"
      then have nf: "\<not> failed (snd (query e (''_.'' @ host)))" by (simp add: failed_simps)
      have "lookups (fst (GetRecord e c host recs)) = lookups [?Z1, ?Z2]"
        unfolding GetRecord_stage2_answer [OF q1 None q2 t]
        using tail [of "[?Z1, ?Z2]"] by simp
      then show ?thesis using None nf by (simp add: lookups_simps)
    qed
  qed
  have terminal: "snd (GetRecord e c host recs) = Done (Record_zero, Some err3)"
    if a: "recs = None \<longrightarrow> failed (snd (query e (''_.'' @ host)))"
      and b: "snd (query e (wildcardHost host)) = Done (txts3, Some err3)"
  proof (cases recs)
    case (Some rs)
    from b q3 have "out3 = Done (txts3, Some err3)" by simp
    then show ?thesis using GetRecord_stage3_ctx [OF q1 q3, of c rs] Some by simp
  next
    case None
    with a failed_query obtain txts2 e2 where
      q2: "query e (''_.'' @ host) = ([?Z2], Done (txts2, Some e2))" by blast
    from b q3 have "out3 = Done (txts3, Some err3)" by simp
    then show ?thesis using GetRecord_stage3 [OF q1 q2 q3, of c] None by simp
  qed
  show ?thesis
    using order terminal zone_names [of a rest] by blast
qed



lemma sample_env_no_dns:
  "query (sample_env []) z = ([Lookup (absoluteZone z)], Done ([], Some (CouldNotGetTXT (External ''no such host''))))"
  by (simp add: query_def sample_env_def Let_def)

theorem GetRecord_lookup_order_witness:
  "failed (snd (query (sample_env []) ''a.b.c''))
   \<and> failed (snd (query (sample_env []) (''_.'' @ ''a.b.c'')))
   \<and> snd (query (sample_env []) (wildcardHost ''a.b.c''))
        = Done ([], Some (CouldNotGetTXT (External ''no such host'')))
   \<and> lookups (fst (GetRecord (sample_env []) (sample_config [''host'']) ''a.b.c'' None))
        = [''_redirect.a.b.c.'', ''_redirect._.a.b.c.'', ''_redirect._.b.c.'']
   \<and> snd (GetRecord (sample_env []) (sample_config [''host'']) ''a.b.c'' None)
        = Done (Record_zero, Some (CouldNotGetTXT (External ''no such host'')))
   \<and> lookups (fst (GetRecord (sample_env []) (sample_config [''host'']) ''a.b.c'' (Some [])))
        = [''_redirect.a.b.c.'', ''_redirect._.b.c.'']"
proof -
  let ?e = "sample_env []" and ?c = "sample_config [''host'']"
  let ?err = "CouldNotGetTXT (External ''no such host'')"
  have f: "\<And>z. failed (snd (query ?e z))"
    by (simp add: sample_env_no_dns failed_simps)
  have q3: "snd (query ?e (wildcardHost ''a.b.c'')) = Done ([], Some ?err)"
    by (simp add: sample_env_no_dns)
  have shape: "''a.b.c'' = ''a'' @ ''.'' @ ''b.c'' \<and> CHR ''.'' \<notin> set ''a'' \<and>
      CHR '':'' \<notin> set ''a.b.c'' \<and> \<not> HasPrefix ''a.b.c'' ''_redirect'' \<and> ''b.c'' \<noteq> [] \<and>
      last ''b.c'' \<noteq> CHR ''.''"
    by (simp add: HasPrefix_def)
  note T = GetRecord_lookup_order [where e = ?e and host = "''a.b.c''" and c = ?c
      and ?txts3.0 = "[]" and ?err3.0 = ?err and a = "''a''" and rest = "''b.c''", OF f]
  note names = T [of None, THEN conjunct2, THEN conjunct2, THEN mp, OF shape]
  have z1: "absoluteZone ''a.b.c'' = ''_redirect.a.b.c.''"
    using names [THEN conjunct1] by simp
  have z2: "absoluteZone (''_.'' @ ''a.b.c'') = ''_redirect._.a.b.c.''"
    using names [THEN conjunct2, THEN conjunct1] by simp
  have z3: "absoluteZone (wildcardHost ''a.b.c'') = ''_redirect._.b.c.''"
    using names [THEN conjunct2, THEN conjunct2] by simp
  have n: "lookups (fst (GetRecord ?e ?c ''a.b.c'' None))
        = [''_redirect.a.b.c.'', ''_redirect._.a.b.c.'', ''_redirect._.b.c.'']"
    unfolding T [of None, THEN conjunct1] z1 z2 z3 using f [of "''_.'' @ ''a.b.c''"] by simp
  have r: "snd (GetRecord ?e ?c ''a.b.c'' None) = Done (Record_zero, Some ?err)"
    using T [of None, THEN conjunct2, THEN conjunct1] f [of "''_.'' @ ''a.b.c''"] q3 by blast
  have s: "lookups (fst (GetRecord ?e ?c ''a.b.c'' (Some [])))
        = [''_redirect.a.b.c.'', ''_redirect._.b.c.'']"
    unfolding T [of "Some []", THEN conjunct1] z1 z2 z3 by simp
  from f [of "''a.b.c''"] f [of "''_.'' @ ''a.b.c''"] q3 n r s show ?thesis by blast
qed



subsection \<open>C6: the first upstream zone that resolves wins\<close>

lemma upstreamLoop_first_success:
  assumes "\<forall>z' \<in> set pre. \<exists>r err. snd (GetRecord e c z' recs) = Done (r, Some err)"
    and "snd (GetRecord e c z recs) = Done (up, None)"
  shows "upstreamLoop e c recs (pre @ z # post) =
           (concat (map (\<lambda>z'. fst (GetRecord e c z' recs)) (pre @ [z])), Done (up, z, None))"
  using assms(1)
proof (induction pre)
  case Nil
  obtain tr where "GetRecord e c z recs = (tr, Done (up, None))"
    using assms(2) by (cases "GetRecord e c z recs") simp
  then show ?case by simp
next
  case (Cons z' pre)
  then obtain tr r err where g: "GetRecord e c z' recs = (tr, Done (r, Some err))"
    by (cases "GetRecord e c z' recs") auto
  from Cons have "upstreamLoop e c recs (pre @ z # post) =
           (concat (map (\<lambda>z'. fst (GetRecord e c z' recs)) (pre @ [z])), Done (up, z, None))"
    by simp
  then show ?case using g by simp
qed

lemma upstreamLoop_all_fail:
  assumes "\<forall>z' \<in> set zs. \<exists>r err. snd (GetRecord e c z' recs) = Done (r, Some err)"
  shows "upstreamLoop e c recs zs =
           (concat (map (\<lambda>z'. fst (GetRecord e c z' recs)) zs), Done (Record_zero, [], Some NoUpstream))"
  using assms
proof (induction zs)
  case Nil
  then show ?case by simp
next
  case (Cons z' zs)
  then obtain tr r err where g: "GetRecord e c z' recs = (tr, Done (r, Some err))"
    by (cases "GetRecord e c z' recs") auto
  from Cons have "upstreamLoop e c recs zs =
           (concat (map (\<lambda>z'. fst (GetRecord e c z' recs)) zs), Done (Record_zero, [], Some NoUpstream))"
    by simp
  then show ?case using g by simp
qed

lemma zones_x:
  "absoluteZone ''_redirect.x.example.org'' = ''_redirect.x.example.org.''"
  "absoluteZone (''_.'' @ ''_redirect.x.example.org'') = ''_redirect._._redirect.x.example.org.''"
  "wildcardHost ''_redirect.x.example.org'' = ''_.x.example.org''"
  "absoluteZone ''_.x.example.org'' = ''_redirect._.x.example.org.''"
  "absoluteZone ''_redirect.y.example.org'' = ''_redirect.y.example.org.''"
  by (simp_all add: absoluteZone_def ContainsChar_def HasPrefix_def HasSuffix_def basezone_def
        wildcardHost_def Let_def)

lemma GetRecord_x:
  "GetRecord (sample_env upstream_table) c ''_redirect.x.example.org'' None
     = ([Lookup ''_redirect.x.example.org.'', Lookup ''_redirect._._redirect.x.example.org.'',
         Lookup ''_redirect._.x.example.org.''],
        Done (Record_zero, Some (CouldNotGetTXT (External ''no such host''))))"
proof -
  have q1: "query (sample_env upstream_table) ''_redirect.x.example.org''
      = ([Lookup ''_redirect.x.example.org.''], Done ([], Some (CouldNotGetTXT (External ''no such host''))))"
    by (simp add: query_def zones_x sample_env_def upstream_table_def)
  have q2: "query (sample_env upstream_table) (''_.'' @ ''_redirect.x.example.org'')
      = ([Lookup ''_redirect._._redirect.x.example.org.''], Done ([], Some (CouldNotGetTXT (External ''no such host''))))"
    unfolding query_def zones_x by (simp add: sample_env_def upstream_table_def)
  have q3: "query (sample_env upstream_table) (wildcardHost ''_redirect.x.example.org'')
      = ([Lookup ''_redirect._.x.example.org.''], Done ([], Some (CouldNotGetTXT (External ''no such host''))))"
    unfolding zones_x query_def by (simp add: zones_x sample_env_def upstream_table_def)
  show ?thesis
    using GetRecord_stage3 [OF q1 q2 q3, of c] by simp
qed

lemma GetRecord_y:
  "GetRecord (sample_env upstream_table) (sample_config [''host'']) ''_redirect.y.example.org'' None
     = ([Lookup ''_redirect.y.example.org.''],
        Done (Record_zero\<lparr>To := ''https://example.com/'', Code := 302, Type := ''host''\<rparr>, None))"
proof -
  have q1: "query (sample_env upstream_table) ''_redirect.y.example.org''
      = ([Lookup ''_redirect.y.example.org.''], Done ([''to=https://example.com/''], None))"
    by (simp add: query_def zones_x sample_env_def upstream_table_def)
  have p: "ParseRecord (sample_env upstream_table) (sample_config [''host'']) ''to=https://example.com/''
   = ([], Done (Record_zero\<lparr>To := ''https://example.com/'', Code := 302, Type := ''host''\<rparr>, None))"
    by (simp add: ParseRecord_def segments_plain_to directive_def HasPrefix_def TrimPrefix_def
        finish_def sample_env_def sample_config_def ParseURI_def Record_zero_def Let_def)
  have pa: "parseAnswer (sample_env upstream_table) (sample_config [''host'']) [''to=https://example.com/'']
   = ([], Done (Record_zero\<lparr>To := ''https://example.com/'', Code := 302, Type := ''host''\<rparr>, None))"
    by (simp add: parseAnswer_def p) (simp add: Record_zero_def)
  show ?thesis
    by (simp add: GetRecord_def q1 pa)
qed


text \<open>
  C6.  \<^const>\<open>UpstreamRecord\<close> asks the zones of \<^verbatim>\<open>Use\<close> in order.  If the zones before
  \<open>z\<close> all return an error and \<open>z\<close> resolves, the result is the record of \<open>z\<close> together
  with \<open>z\<close>, and the trace is that of the calls up to \<open>z\<close>: the zones after it are not
  consulted.  If every zone returns an error, the result is the error
  \<^verbatim>\<open>Couldn't find any records from upstream\<close>.
\<close>

theorem UpstreamRecord_first_success:
  "(Use rec = pre @ z # post \<and>
      (\<forall>z' \<in> set pre. \<exists>r err. snd (GetRecord e c z' recs) = Done (r, Some err)) \<and>
      snd (GetRecord e c z recs) = Done (up, None) \<longrightarrow>
        UpstreamRecord e c rec recs =
          (concat (map (\<lambda>z'. fst (GetRecord e c z' recs)) (pre @ [z])), Done (up, z, None)))
   \<and> ((\<forall>z' \<in> set (Use rec). \<exists>r err. snd (GetRecord e c z' recs) = Done (r, Some err)) \<longrightarrow>
        UpstreamRecord e c rec recs =
          (concat (map (\<lambda>z'. fst (GetRecord e c z' recs)) (Use rec)),
           Done (Record_zero, [], Some NoUpstream)))"
  using upstreamLoop_first_success [of pre e c recs z up post] upstreamLoop_all_fail [of "Use rec" e c recs]
  by (simp add: UpstreamRecord_def)


theorem UpstreamRecord_first_success_witness:
  "Use upstream_pointer = [''_redirect.x.example.org''] @ ''_redirect.y.example.org''
       # [''_redirect.z.example.org'']
   \<and> snd (GetRecord (sample_env upstream_table) (sample_config [''host''])
            ''_redirect.x.example.org'' None)
       = Done (Record_zero, Some (CouldNotGetTXT (External ''no such host'')))
   \<and> UpstreamRecord (sample_env upstream_table) (sample_config [''host'']) upstream_pointer None
       = ([Lookup ''_redirect.x.example.org.'', Lookup ''_redirect._._redirect.x.example.org.'',
           Lookup ''_redirect._.x.example.org.'', Lookup ''_redirect.y.example.org.''],
          Done (Record_zero\<lparr>To := ''https://example.com/'', Code := 302, Type := ''host''\<rparr>,
                ''_redirect.y.example.org'', None))
   \<and> snd (UpstreamRecord (sample_env []) (sample_config [''host'']) upstream_pointer None)
       = Done (Record_zero, [], Some NoUpstream)"
proof -
  let ?e = "sample_env upstream_table" and ?c = "sample_config [''host'']"
  let ?up = "Record_zero\<lparr>To := ''https://example.com/'', Code := 302, Type := ''host''\<rparr>"
  have use: "Use upstream_pointer = [''_redirect.x.example.org''] @ ''_redirect.y.example.org''
       # [''_redirect.z.example.org'']"
    by (simp add: upstream_pointer_def)
  have x: "snd (GetRecord ?e ?c ''_redirect.x.example.org'' None)
       = Done (Record_zero, Some (CouldNotGetTXT (External ''no such host'')))"
    by (simp add: GetRecord_x)
  then have pre: "\<forall>z' \<in> set [''_redirect.x.example.org''].
      \<exists>r err. snd (GetRecord ?e ?c z' None) = Done (r, Some err)"
    by simp
  have y: "snd (GetRecord ?e ?c ''_redirect.y.example.org'' None) = Done (?up, None)"
    by (simp add: GetRecord_y)
  from UpstreamRecord_first_success [where e = ?e and c = ?c and rec = upstream_pointer
      and recs = None and pre = "[''_redirect.x.example.org'']" and z = "''_redirect.y.example.org''"
      and post = "[''_redirect.z.example.org'']" and up = ?up, THEN conjunct1, THEN mp,
      OF conjI [OF use conjI [OF pre y]]]
  have first: "UpstreamRecord ?e ?c upstream_pointer None
       = ([Lookup ''_redirect.x.example.org.'', Lookup ''_redirect._._redirect.x.example.org.'',
           Lookup ''_redirect._.x.example.org.'', Lookup ''_redirect.y.example.org.''],
          Done (?up, ''_redirect.y.example.org'', None))"
    by (simp add: GetRecord_x GetRecord_y)
  have "\<forall>z' \<in> set (Use upstream_pointer).
      \<exists>r err. snd (GetRecord (sample_env []) ?c z' None) = Done (r, Some err)"
  proof
    fix z'
    obtain t1 t2 t3 where
      "query (sample_env []) z' = ([t1], Done ([], Some (CouldNotGetTXT (External ''no such host''))))"
      "query (sample_env []) (''_.'' @ z') = ([t2], Done ([], Some (CouldNotGetTXT (External ''no such host''))))"
      "query (sample_env []) (wildcardHost z') = ([t3], Done ([], Some (CouldNotGetTXT (External ''no such host''))))"
      using sample_env_no_dns by blast
    from GetRecord_stage3 [OF this, of ?c]
    show "\<exists>r err. snd (GetRecord (sample_env []) ?c z' None) = Done (r, Some err)"
      by simp
  qed
  from UpstreamRecord_first_success [where e = "sample_env []" and c = ?c
      and rec = upstream_pointer and recs = None, THEN conjunct2, THEN mp, OF this]
  have none: "snd (UpstreamRecord (sample_env []) ?c upstream_pointer None)
       = Done (Record_zero, [], Some NoUpstream)"
    by simp
  from use x first none show ?thesis by blast
qed


section \<open>The dispatcher, case by case\<close>

lemma length_Split: "length (Split h c) = Suc (length (filter (\<lambda>x. x = c) h))"
  by (induction h) (auto split: list.splits simp: Split_not_Nil)

lemma is_digit_not_sign: "is_digit x \<Longrightarrow> x \<noteq> CHR ''-'' \<and> x \<noteq> CHR ''+''"
  by (auto simp: is_digit_def)

lemma Atoi_octet:
  assumes "octet s"
  shows "Atoi s = Some (int (digits_val s))"
proof -
  from assms obtain x xs where s: "s = x # xs" by (cases s) (auto simp: octet_def)
  with assms have "is_digit x" by (simp add: octet_def)
  then have "x \<noteq> CHR ''-''" "x \<noteq> CHR ''+''" using is_digit_not_sign by blast+
  moreover have "list_all is_digit s" "digits_val s \<le> 255" using assms by (simp_all add: octet_def)
  ultimately show ?thesis using s by (simp add: Atoi_def)
qed

lemma isIP_dotted_quad: "dotted_quad h \<Longrightarrow> isIP h"
  by (auto simp: dotted_quad_def isIP_def Atoi_octet split: list.splits)

lemma isIP_colons: "2 \<le> colons h \<Longrightarrow> isIP h"
  by (simp add: isIP_def colons_def length_Split)

lemma Redirect_isIP:
  "Path req \<noteq> ''/favicon.ico'' \<Longrightarrow> isIP (Host req) \<Longrightarrow>
     Redirect e c req = ([SetHeader ''Server'' ''TXTDirect'', Fallback ''global'' 301], Done None)"
  by (simp add: Redirect_def Let_def)

lemma Itoa_404: "Itoa 404 = ''404''"
  by code_simp

lemma lookups_simps2:
  "lookups (SetHeader n v # tr) = lookups tr"
  "lookups (AddHeader n v # tr) = lookups tr"
  "lookups (HttpRedirect u k # tr) = lookups tr"
  "lookups (Handler n # tr) = lookups tr"
  by (simp_all add: lookups_def)


lemma Redirect_blacklisted:
  "Path req = ''/favicon.ico'' \<Longrightarrow>
     Redirect e c req =
       ([SetHeader ''Server'' ''TXTDirect'', SetHeader ''Content-Type'' [],
         AddHeader ''Status-Code'' ''404'', HttpRedirect (Host req @ ''/favicon.ico'') 404],
        Done None)"
  by (simp add: Redirect_def Let_def Itoa_404)

lemma Redirect_GetRecord_error:
  assumes "Path req \<noteq> ''/favicon.ico''" and "\<not> isIP (Host req)"
    and "GetRecord e c (Host req) (records req) = (tr, Done (rec, Some err))"
  shows "Redirect e c req =
           (SetHeader ''Server'' ''TXTDirect'' # tr @ [Fallback ''global'' 302], Done None)"
  using assms by (simp add: Redirect_def Let_def)

lemma Redirect_GetRecord_panic:
  assumes "Path req \<noteq> ''/favicon.ico''" and "\<not> isIP (Host req)"
    and "GetRecord e c (Host req) (records req) = (tr, Panic)"
  shows "Redirect e c req = (SetHeader ''Server'' ''TXTDirect'' # tr, Panic)"
  using assms by (simp add: Redirect_def Let_def)



lemma GetRecord_no_dns:
  "GetRecord (sample_env []) c h None =
     ([Lookup (absoluteZone h), Lookup (absoluteZone (''_.'' @ h)),
       Lookup (absoluteZone (wildcardHost h))],
      Done (Record_zero, Some (CouldNotGetTXT (External ''no such host''))))"
  using GetRecord_stage3 [OF sample_env_no_dns sample_env_no_dns sample_env_no_dns,
      where host = h and c = c]
  by simp

lemma not_isIP_port: "isIP ''127.0.0.1:8080'' = False"
  by code_simp

lemma zones_port:
  "absoluteZone ''127.0.0.1:8080'' = ''_redirect.127.0.0.1.''"
  "absoluteZone (''_.'' @ ''127.0.0.1:8080'') = ''_redirect._.127.0.0.1.''"
  "absoluteZone (wildcardHost ''127.0.0.1:8080'') = ''_redirect._.0.0.1.''"
  by (simp_all add: absoluteZone_def ContainsChar_def HasPrefix_def HasSuffix_def basezone_def
        wildcardHost_def Let_def)










subsection \<open>Concrete requests\<close>



















section \<open>Claims about the Redirect Dispatcher\<close>

subsection \<open>C3: a literal IP address as host\<close>

text \<open>
  C3, as the code has it.  \<^const>\<open>isIP\<close> holds for every dotted quad without a port and
  for every host with at least two colons (every IPv6 literal, bracketed and with a port
  or not).  For a host with \<^const>\<open>isIP\<close> and a request path other than the blacklisted
  \<^verbatim>\<open>/favicon.ico\<close>, \<^const>\<open>Redirect\<close> sets the \<^verbatim>\<open>Server\<close> header, invokes the global Fallback
  Policy once and returns nil, without any DNS lookup.  The blacklist check stands before
  the IP check.  Nothing is said here about an IPv4 address followed by a port.
\<close>

theorem Redirect_literal_IP:
  "(dotted_quad h \<or> 2 \<le> colons h \<longrightarrow> isIP h)
   \<and> (isIP (Host req) \<and> Path req \<noteq> ''/favicon.ico'' \<longrightarrow>
        Redirect e c req = ([SetHeader ''Server'' ''TXTDirect'', Fallback ''global'' 301], Done None)
        \<and> lookups (fst (Redirect e c req)) = []
        \<and> fallbacks (fst (Redirect e c req)) = 1)"
  using isIP_dotted_quad isIP_colons Redirect_isIP [of req e c]
  by (auto simp: lookups_def fallbacks_def is_Fallback_def)

theorem Redirect_literal_IP_witness:
  "dotted_quad ''192.168.1.1'' \<and> isIP ''192.168.1.1''
   \<and> Path (sample_request ''192.168.1.1'' ''/'') \<noteq> ''/favicon.ico''
   \<and> Redirect (sample_env []) (sample_config [''host'']) (sample_request ''192.168.1.1'' ''/'')
       = ([SetHeader ''Server'' ''TXTDirect'', Fallback ''global'' 301], Done None)
   \<and> 2 \<le> colons ''[2001:db8::1]:8080'' \<and> isIP ''[2001:db8::1]:8080''
   \<and> Redirect (sample_env []) (sample_config [''host'']) (sample_request ''[2001:db8::1]:8080'' ''/test'')
       = ([SetHeader ''Server'' ''TXTDirect'', Fallback ''global'' 301], Done None)"
proof -
  let ?e = "sample_env []" and ?c = "sample_config [''host'']"
  let ?r4 = "sample_request ''192.168.1.1'' ''/''"
  let ?r6 = "sample_request ''[2001:db8::1]:8080'' ''/test''"
  have q: "dotted_quad ''192.168.1.1''"
    by (simp add: dotted_quad_def octet_def is_digit_def digits_val_def digit_val_def)
  have k: "2 \<le> colons ''[2001:db8::1]:8080''"
    by (simp add: colons_def)
  have p4: "Path ?r4 \<noteq> ''/favicon.ico''" and p6: "Path ?r6 \<noteq> ''/favicon.ico''"
    by (simp_all add: sample_request_def)
  have h4: "Host ?r4 = ''192.168.1.1''" and h6: "Host ?r6 = ''[2001:db8::1]:8080''"
    by (simp_all add: sample_request_def)
  note T4 = Redirect_literal_IP [where h = "''192.168.1.1''" and req = ?r4 and e = ?e and c = ?c]
  note T6 = Redirect_literal_IP [where h = "''[2001:db8::1]:8080''" and req = ?r6 and e = ?e and c = ?c]
  have i4: "isIP ''192.168.1.1''" using T4 [THEN conjunct1] q by blast
  have i6: "isIP ''[2001:db8::1]:8080''" using T6 [THEN conjunct1] k by blast
  have r4: "Redirect ?e ?c ?r4 = ([SetHeader ''Server'' ''TXTDirect'', Fallback ''global'' 301], Done None)"
    using T4 [THEN conjunct2] i4 p4 h4 by simp
  have r6: "Redirect ?e ?c ?r6 = ([SetHeader ''Server'' ''TXTDirect'', Fallback ''global'' 301], Done None)"
    using T6 [THEN conjunct2] i6 p6 h6 by simp
  from q i4 p4 r4 k i6 r6 show ?thesis by blast
qed


text \<open>The claim as written fails twice: for the blacklisted path the answer is the 404 of
  the blacklist and no fallback, and for an IPv4 address with a port \<^const>\<open>isIP\<close> is false
  and the three DNS lookups are made.\<close>

theorem Redirect_literal_IP_counterexample:
  "dotted_quad ''127.0.0.1''
   \<and> Redirect (sample_env []) (sample_config [''host'']) (sample_request ''127.0.0.1'' ''/favicon.ico'')
       = ([SetHeader ''Server'' ''TXTDirect'', SetHeader ''Content-Type'' [],
           AddHeader ''Status-Code'' ''404'', HttpRedirect ''127.0.0.1/favicon.ico'' 404],
          Done None)
   \<and> lookups (fst (Redirect (sample_env []) (sample_config [''host''])
                       (sample_request ''127.0.0.1:8080'' ''/'')))
       = [''_redirect.127.0.0.1.'', ''_redirect._.127.0.0.1.'', ''_redirect._.0.0.1.'']"
proof -
  have a: "dotted_quad ''127.0.0.1''"
    by (simp add: dotted_quad_def octet_def is_digit_def digits_val_def digit_val_def)
  have b: "Redirect (sample_env []) (sample_config [''host'']) (sample_request ''127.0.0.1'' ''/favicon.ico'')
       = ([SetHeader ''Server'' ''TXTDirect'', SetHeader ''Content-Type'' [],
           AddHeader ''Status-Code'' ''404'', HttpRedirect ''127.0.0.1/favicon.ico'' 404],
          Done None)"
    using Redirect_blacklisted [of "sample_request ''127.0.0.1'' ''/favicon.ico''"]
    by (simp add: sample_request_def)
  have "Redirect (sample_env []) (sample_config [''host'']) (sample_request ''127.0.0.1:8080'' ''/'')
       = (SetHeader ''Server'' ''TXTDirect'' #
            [Lookup ''_redirect.127.0.0.1.'', Lookup ''_redirect._.127.0.0.1.'',
             Lookup ''_redirect._.0.0.1.''] @ [Fallback ''global'' 302], Done None)"
    using Redirect_GetRecord_error [of "sample_request ''127.0.0.1:8080'' ''/''" "sample_env []"
        "sample_config [''host'']"] GetRecord_no_dns [of "sample_config [''host'']" "''127.0.0.1:8080''"]
    unfolding zones_port
    by (simp add: sample_request_def not_isIP_port)
  then have c: "lookups (fst (Redirect (sample_env []) (sample_config [''host''])
                       (sample_request ''127.0.0.1:8080'' ''/'')))
       = [''_redirect.127.0.0.1.'', ''_redirect._.127.0.0.1.'', ''_redirect._.0.0.1.'']"
    by (simp add: lookups_simps lookups_simps2)
  from a b c show ?thesis by blast
qed




subsection \<open>C1: which errors end in a fallback\<close>







subsection \<open>C7: a host record without \<^verbatim>\<open>to=\<close>\<close>





end
